theory Spec2Isabelle
  imports Main "HOL-Library.Char_ord" "HOL-Library.List_Lexorder"
begin

section \<open>JavaScript values used by the cache layer\<close>

text \<open>
  Strings are byte strings (ASCII).  A number is \<open>NaN\<close>, an infinity, or a finite decimal
  \<open>Dec m e\<close> standing for \<open>m * 10 ^ e\<close>; binary64 rounding and overflow are not modelled,
  so the model is exact for numbers that a double represents by their shortest decimal
  form.  A raw criteria field is a scalar: missing (\<open>undefined\<close>), \<open>null\<close>, a boolean, a
  number or a string.  Arrays and nested objects as field values are outside the model.
\<close>

datatype jsnum = NaN | Infinity bool | Dec int int

datatype jsval = JUndefined | JNull | JBool bool | JNum jsnum | JStr string

subsection \<open>Number to string\<close>

definition digit_char :: "nat \<Rightarrow> char" where
  "digit_char d = ''0123456789'' ! d"

function string_of_nat :: "nat \<Rightarrow> string" where
  "string_of_nat n =
     (if n < 10 then [digit_char n] else string_of_nat (n div 10) @ [digit_char (n mod 10)])"
  by pat_completeness auto
termination
  by (relation "measure (\<lambda>n. n)") auto

declare string_of_nat.simps [simp del]

definition string_of_int :: "int \<Rightarrow> string" where
  "string_of_int i = (if i < 0 then ''-'' @ string_of_nat (nat (- i)) else string_of_nat (nat i))"

text \<open>
  \<open>Number::toString\<close> of ECMAScript for radix 10: with \<open>s\<close> the significant digits
  (no trailing zero), \<open>k\<close> their count and \<open>n\<close> the position of the decimal point,
  the result is plain digits for \<open>k \<le> n \<le> 21\<close>, a decimal fraction for \<open>-6 < n \<le> 21\<close>,
  and exponent notation otherwise.
\<close>

definition number_toString_pos :: "nat \<Rightarrow> int \<Rightarrow> string" where
  "number_toString_pos m e =
     (let ds = string_of_nat m;
          z = length (takeWhile (\<lambda>c. c = CHR ''0'') (rev ds));
          s = take (length ds - z) ds;
          k = int (length s);
          n = k + e + int z
      in if k \<le> n \<and> n \<le> 21 then s @ replicate (nat (n - k)) (CHR ''0'')
         else if 0 < n \<and> n \<le> 21 then take (nat n) s @ ''.'' @ drop (nat n) s
         else if - 6 < n \<and> n \<le> 0 then ''0.'' @ replicate (nat (- n)) (CHR ''0'') @ s
         else (if k = 1 then s else take 1 s @ ''.'' @ drop 1 s) @ ''e''
              @ (if 0 \<le> n - 1 then ''+'' else ''-'') @ string_of_nat (nat \<bar>n - 1\<bar>))"

fun number_toString :: "jsnum \<Rightarrow> string" where
  "number_toString NaN = ''NaN''"
| "number_toString (Infinity neg) = (if neg then ''-Infinity'' else ''Infinity'')"
| "number_toString (Dec m e) =
     (if m = 0 then ''0''
      else if m < 0 then ''-'' @ number_toString_pos (nat (- m)) e
      else number_toString_pos (nat m) e)"

fun toString :: "jsval \<Rightarrow> string" where
  "toString JUndefined = ''undefined''"
| "toString JNull = ''null''"
| "toString (JBool b) = (if b then ''true'' else ''false'')"
| "toString (JNum x) = number_toString x"
| "toString (JStr s) = s"

subsection \<open>String to number: \<open>parseInt\<close> and \<open>parseFloat\<close>\<close>

definition is_ws :: "char \<Rightarrow> bool" where
  "is_ws c = (c \<in> set [CHR '' '', CHR 0x09, CHR 0x0A, CHR 0x0B, CHR 0x0C, CHR 0x0D])"

definition is_digit :: "char \<Rightarrow> bool" where
  "is_digit c = (c \<in> set ''0123456789'')"

definition is_hex_digit :: "char \<Rightarrow> bool" where
  "is_hex_digit c = (c \<in> set ''0123456789abcdefABCDEF'')"

definition digit_val :: "char \<Rightarrow> nat" where
  "digit_val c =
     (if is_digit c then of_char c - 48
      else if c \<in> set ''abcdef'' then of_char c - 87
      else of_char c - 55)"

definition nat_of_digits :: "nat \<Rightarrow> string \<Rightarrow> nat" where
  "nat_of_digits radix ds = foldl (\<lambda>acc c. acc * radix + digit_val c) 0 ds"

text \<open>A finite value in canonical form: zero is \<open>Dec 0 0\<close>, otherwise the mantissa has no
  trailing zero.\<close>

definition mk_dec :: "bool \<Rightarrow> nat \<Rightarrow> int \<Rightarrow> jsnum" where
  "mk_dec neg m e =
     (if m = 0 then Dec 0 0
      else let ds = string_of_nat m;
               z = length (takeWhile (\<lambda>c. c = CHR ''0'') (rev ds));
               m' = int (m div 10 ^ z)
           in Dec (if neg then - m' else m') (e + int z))"

definition strip_sign :: "string \<Rightarrow> bool \<times> string" where
  "strip_sign s =
     (case s of
        c # r \<Rightarrow> if c = CHR ''-'' then (True, r) else if c = CHR ''+'' then (False, r) else (False, s)
      | [] \<Rightarrow> (False, s))"

definition parseInt_str :: "string \<Rightarrow> jsnum" where
  "parseInt_str inp =
     (let (neg, s) = strip_sign (dropWhile is_ws inp);
          hex = (take 2 s = ''0x'' \<or> take 2 s = ''0X'');
          ds = (if hex then takeWhile is_hex_digit (drop 2 s) else takeWhile is_digit s)
      in if ds = [] then NaN
         else mk_dec neg (nat_of_digits (if hex then 16 else 10) ds) 0)"

definition exponent_part :: "string \<Rightarrow> int" where
  "exponent_part r =
     (case r of
        c # r1 \<Rightarrow>
          if c = CHR ''e'' \<or> c = CHR ''E'' then
            (let (eneg, r2) = strip_sign r1; es = takeWhile is_digit r2
             in if es = [] then 0
                else if eneg then - int (nat_of_digits 10 es) else int (nat_of_digits 10 es))
          else 0
      | [] \<Rightarrow> 0)"

definition parseFloat_str :: "string \<Rightarrow> jsnum" where
  "parseFloat_str inp =
     (let (neg, s) = strip_sign (dropWhile is_ws inp)
      in if take 8 s = ''Infinity'' then Infinity neg
         else
           let ip = takeWhile is_digit s;
               r = drop (length ip) s;
               fp = (if take 1 r = ''.'' then takeWhile is_digit (drop 1 r) else []);
               r' = (if take 1 r = ''.'' then drop (1 + length fp) r else r)
           in if ip = [] \<and> fp = [] then NaN
              else mk_dec neg (nat_of_digits 10 (ip @ fp)) (exponent_part r' - int (length fp)))"

definition parseInt :: "jsval \<Rightarrow> jsnum" where
  "parseInt v = parseInt_str (toString v)"

definition parseFloat :: "jsval \<Rightarrow> jsnum" where
  "parseFloat v = parseFloat_str (toString v)"

subsection \<open>Truthiness, \<open>||\<close> and \<open>Boolean\<close>\<close>

fun num_truthy :: "jsnum \<Rightarrow> bool" where
  "num_truthy NaN = False"
| "num_truthy (Infinity _) = True"
| "num_truthy (Dec m e) = (m \<noteq> 0)"

fun truthy :: "jsval \<Rightarrow> bool" where
  "truthy JUndefined = False"
| "truthy JNull = False"
| "truthy (JBool b) = b"
| "truthy (JNum x) = num_truthy x"
| "truthy (JStr s) = (s \<noteq> [])"

definition js_or :: "jsval \<Rightarrow> jsval \<Rightarrow> jsval" where
  "js_or a b = (if truthy a then a else b)"

definition num_or :: "jsnum \<Rightarrow> jsnum \<Rightarrow> jsnum" where
  "num_or a b = (if num_truthy a then a else b)"

definition Boolean :: "jsval \<Rightarrow> bool" where
  "Boolean v = truthy v"

section \<open>CacheManager: normalization (server.js)\<close>

text \<open>
  A property read on the object literal \<open>raceMapping\<close> finds one of its eight own keys,
  or a member inherited from \<open>Object.prototype\<close>, or nothing.
\<close>

datatype propval = Own jsnum | Inherited string

definition object_prototype_names :: "string list" where
  "object_prototype_names =
     [''constructor'', ''__defineGetter__'', ''__defineSetter__'', ''hasOwnProperty'',
      ''__lookupGetter__'', ''__lookupSetter__'', ''isPrototypeOf'', ''propertyIsEnumerable'',
      ''toString'', ''valueOf'', ''__proto__'', ''toLocaleString'']"

definition raceMapping :: "string \<Rightarrow> propval option" where
  "raceMapping k =
     (if k = ''any'' \<or> k = ''0'' then Some (Own (Dec 0 0))
      else if k = ''white'' \<or> k = ''1'' then Some (Own (Dec 1 0))
      else if k = ''black'' \<or> k = ''2'' then Some (Own (Dec 2 0))
      else if k = ''asian'' \<or> k = ''3'' then Some (Own (Dec 3 0))
      else if k \<in> set object_prototype_names then Some (Inherited k)
      else None)"

text \<open>\<open>race?.toString()\<close>: \<open>undefined\<close> for a missing or null race, whose property key
  is the string \<open>undefined\<close>.\<close>

definition opt_toString :: "jsval \<Rightarrow> jsval" where
  "opt_toString v = (if v = JUndefined \<or> v = JNull then JUndefined else JStr (toString v))"

definition normalizeRace :: "jsval \<Rightarrow> propval" where
  "normalizeRace race =
     (case raceMapping (toString (opt_toString race)) of
        Some v \<Rightarrow> v
      | None \<Rightarrow> Own (Dec 0 0))"

text \<open>\<open>height === 0\<close>: strict equality with the number zero.\<close>

fun is_number_zero :: "jsval \<Rightarrow> bool" where
  "is_number_zero (JNum (Dec m e)) = (m = 0)"
| "is_number_zero _ = False"

definition normalizeHeight :: "jsval \<Rightarrow> jsnum" where
  "normalizeHeight height =
     (if \<not> truthy height \<or> height = JStr ''any'' \<or> is_number_zero height then Dec 0 0
      else num_or (parseFloat height) (Dec 0 0))"

record raw_criteria =
  raw_minAge :: jsval
  raw_maxAge :: jsval
  raw_excludeMarried :: jsval
  raw_race :: jsval
  raw_height :: jsval
  raw_minHeight :: jsval
  raw_excludeObese :: jsval
  raw_income :: jsval
  raw_minIncome :: jsval

record normalized =
  minAge :: jsnum
  maxAge :: jsnum
  excludeMarried :: bool
  race :: propval
  minHeight :: jsnum
  excludeObese :: bool
  minIncome :: jsnum

definition getNormalizedCriteria :: "raw_criteria \<Rightarrow> normalized" where
  "getNormalizedCriteria criteria =
     \<lparr> minAge = num_or (parseInt (raw_minAge criteria)) (Dec 25 0),
       maxAge = num_or (parseInt (raw_maxAge criteria)) (Dec 35 0),
       excludeMarried = Boolean (raw_excludeMarried criteria),
       race = normalizeRace (raw_race criteria),
       minHeight = normalizeHeight (js_or (raw_height criteria) (raw_minHeight criteria)),
       excludeObese = Boolean (raw_excludeObese criteria),
       minIncome = parseInt (js_or (js_or (raw_income criteria) (raw_minIncome criteria))
                                   (JNum (Dec 0 0))) \<rparr>"

section \<open>CacheManager: fingerprint (server.js)\<close>

text \<open>
  The normalized object as its property list in insertion order; \<open>generateKey\<close> copies it
  into a fresh object in the order of the sorted keys, serialises that with
  \<open>JSON.stringify\<close> and hashes the text.  The digest (\<open>crypto\<close>'s MD5, hex encoded) is a
  library function and is a parameter of the model.
\<close>

datatype nval = VNum jsnum | VBool bool | VProp propval

definition normalized_entries :: "normalized \<Rightarrow> (string \<times> nval) list" where
  "normalized_entries n =
     [(''minAge'', VNum (minAge n)), (''maxAge'', VNum (maxAge n)),
      (''excludeMarried'', VBool (excludeMarried n)), (''race'', VProp (race n)),
      (''minHeight'', VNum (minHeight n)), (''excludeObese'', VBool (excludeObese n)),
      (''minIncome'', VNum (minIncome n))]"

fun json_number :: "jsnum \<Rightarrow> string" where
  "json_number (Dec m e) = number_toString (Dec m e)"
| "json_number _ = ''null''"

text \<open>A property whose value is a function is left out by \<open>JSON.stringify\<close>;
  \<open>Object.prototype\<close> itself (the value of \<open>__proto__\<close>) is an object without enumerable
  properties.\<close>

fun json_value :: "nval \<Rightarrow> string option" where
  "json_value (VNum x) = Some (json_number x)"
| "json_value (VBool b) = Some (if b then ''true'' else ''false'')"
| "json_value (VProp (Own x)) = Some (json_number x)"
| "json_value (VProp (Inherited k)) = (if k = ''__proto__'' then Some ''{}'' else None)"

fun json_members :: "(string \<times> nval) list \<Rightarrow> string list" where
  "json_members [] = []"
| "json_members ((k, v) # kvs) =
     (case json_value v of
        None \<Rightarrow> json_members kvs
      | Some t \<Rightarrow> (''\"'' @ k @ ''\":'' @ t) # json_members kvs)"

fun join_commas :: "string list \<Rightarrow> string" where
  "join_commas [] = []"
| "join_commas [x] = x"
| "join_commas (x # y # ys) = x @ '','' @ join_commas (y # ys)"

definition JSON_stringify :: "(string \<times> nval) list \<Rightarrow> string" where
  "JSON_stringify kvs = ''{'' @ join_commas (json_members kvs) @ ''}''"

definition generateKey :: "(string \<Rightarrow> string) \<Rightarrow> raw_criteria \<Rightarrow> string" where
  "generateKey md5 criteria =
     (let normalized = getNormalizedCriteria criteria;
          sortedNormalized = sort_key fst (normalized_entries normalized)
      in md5 (JSON_stringify sortedNormalized))"

section \<open>CacheManager: the store (server.js)\<close>

datatype disk_file = CacheFile | ProgressFile | ResultsFile | ErrorLogFile

datatype js_error = IOError disk_file | FetchError string | TypeError string

text \<open>
  The environment decides whether a write to a file succeeds (\<open>wr f\<close>); a failed
  \<open>fs.writeFileSync\<close> or \<open>fs.writeFile\<close> throws and leaves the file as it was.
\<close>

definition writeFile :: "(disk_file \<Rightarrow> bool) \<Rightarrow> disk_file \<Rightarrow> 'c \<Rightarrow> 'c option \<Rightarrow> js_error + 'c option" where
  "writeFile wr f content old = (if wr f then Inr (Some content) else Inl (IOError f))"

record 'd cache_entry =
  criteria :: normalized
  data :: 'd
  timestamp :: string
  accessCount :: "nat option"
  lastAccessed :: "string option"

record 'd cache_manager =
  cache :: "string \<rightharpoonup> 'd cache_entry"
  cacheFile :: "(string \<rightharpoonup> 'd cache_entry) option"

text \<open>The envelope \<open>{...data, fromCache, cacheKey, cachedAt, accessCount}\<close>; the last two
  properties are absent on a miss.\<close>

record 'd envelope =
  payload :: 'd
  fromCache :: bool
  cacheKey :: string
  cachedAt :: "string option"
  env_accessCount :: "nat option"

text \<open>\<open>saveToFile\<close> wraps the write in \<open>try\<close>/\<open>catch\<close>; the handler prints the message and
  returns.\<close>

definition saveToFile :: "(disk_file \<Rightarrow> bool) \<Rightarrow> 'd cache_manager \<Rightarrow> js_error + 'd cache_manager" where
  "saveToFile wr cm =
     (case writeFile wr CacheFile (cache cm) (cacheFile cm) of
        Inr f \<Rightarrow> Inr (cm\<lparr>cacheFile := f\<rparr>)
      | Inl err \<Rightarrow> Inr cm)"

definition get_cm :: "(string \<Rightarrow> string) \<Rightarrow> 'd cache_manager \<Rightarrow> raw_criteria \<Rightarrow> 'd envelope option" where
  "get_cm md5 cm crit =
     (let key = generateKey md5 crit
      in case cache cm key of
           Some cached \<Rightarrow>
             Some \<lparr> payload = data cached, fromCache = True, cacheKey = key,
                    cachedAt = Some (timestamp cached), env_accessCount = accessCount cached \<rparr>
         | None \<Rightarrow> None)"

definition set_cm ::
  "(string \<Rightarrow> string) \<Rightarrow> (disk_file \<Rightarrow> bool) \<Rightarrow> string \<Rightarrow> 'd cache_manager \<Rightarrow> raw_criteria \<Rightarrow> 'd
     \<Rightarrow> js_error + (string \<times> 'd cache_manager)" where
  "set_cm md5 wr now cm crit d =
     (let key = generateKey md5 crit;
          normalizedCriteria = getNormalizedCriteria crit;
          cacheEntry = \<lparr> criteria = normalizedCriteria, data = d, timestamp = now,
                         accessCount = Some 1, lastAccessed = None \<rparr>
      in case saveToFile wr (cm\<lparr>cache := (cache cm)(key \<mapsto> cacheEntry)\<rparr>) of
           Inl err \<Rightarrow> Inl err
         | Inr cm' \<Rightarrow> Inr (key, cm'))"

text \<open>\<open>(cached.accessCount || 1) + 1\<close>: a missing or zero count is read as 1.\<close>

definition count_or_one :: "nat option \<Rightarrow> nat" where
  "count_or_one c = (case c of None \<Rightarrow> 1 | Some n \<Rightarrow> if n = 0 then 1 else n)"

definition updateAccess ::
  "(string \<Rightarrow> string) \<Rightarrow> (disk_file \<Rightarrow> bool) \<Rightarrow> string \<Rightarrow> 'd cache_manager \<Rightarrow> raw_criteria
     \<Rightarrow> js_error + 'd cache_manager" where
  "updateAccess md5 wr now cm crit =
     (let key = generateKey md5 crit
      in case cache cm key of
           Some cached \<Rightarrow>
             saveToFile wr
               (cm\<lparr>cache := (cache cm)(key \<mapsto>
                      cached\<lparr>accessCount := Some (count_or_one (accessCount cached) + 1),
                             lastAccessed := Some now\<rparr>)\<rparr>)
         | None \<Rightarrow> Inr cm)"

text \<open>
  \<open>getResults\<close>: the scraper (\<open>scrapeResults\<close>, a headless browser session) is the
  external collaborator; \<open>scrape\<close> is what it returns or throws for this request.  The
  result pairs what the caller receives with the cache manager afterwards.
\<close>

definition getResults ::
  "(string \<Rightarrow> string) \<Rightarrow> (disk_file \<Rightarrow> bool) \<Rightarrow> string \<Rightarrow> (raw_criteria \<Rightarrow> js_error + 'd)
     \<Rightarrow> 'd cache_manager \<Rightarrow> raw_criteria \<Rightarrow> (js_error + 'd envelope) \<times> 'd cache_manager" where
  "getResults md5 wr now scrape cm crit =
     (case get_cm md5 cm crit of
        Some cachedResult \<Rightarrow>
          (case updateAccess md5 wr now cm crit of
             Inl err \<Rightarrow> (Inl err, cm)
           | Inr cm' \<Rightarrow> (Inr cachedResult, cm'))
      | None \<Rightarrow>
          (case scrape crit of
             Inl err \<Rightarrow> (Inl err, cm)
           | Inr results \<Rightarrow>
               (case set_cm md5 wr now cm crit results of
                  Inl err \<Rightarrow> (Inl err, cm)
                | Inr (key, cm') \<Rightarrow>
                    (Inr \<lparr> payload = results, fromCache = False, cacheKey = key,
                           cachedAt = None, env_accessCount = None \<rparr>, cm'))))"

definition no_criteria :: raw_criteria where
  "no_criteria =
     \<lparr> raw_minAge = JUndefined, raw_maxAge = JUndefined, raw_excludeMarried = JUndefined,
       raw_race = JUndefined, raw_height = JUndefined, raw_minHeight = JUndefined,
       raw_excludeObese = JUndefined, raw_income = JUndefined, raw_minIncome = JUndefined \<rparr>"

definition initializeCache :: "(string \<rightharpoonup> 'd cache_entry) option \<Rightarrow> 'd cache_manager" where
  "initializeCache f = \<lparr> cache = (case f of Some m \<Rightarrow> m | None \<Rightarrow> Map.empty), cacheFile = f \<rparr>"


section \<open>DataCachingSystem: the parameter space (cache-system.js)\<close>

text \<open>
  The grids hold integer literals and booleans, so a combination's numeric parameters
  are integers.  A template literal prints an integer in decimal and a boolean as
  \<open>true\<close> or \<open>false\<close>.
\<close>

record combo_params =
  p_minAge :: int
  p_maxAge :: int
  p_excludeMarried :: bool
  p_race :: int
  p_minHeight :: int
  p_excludeObese :: bool
  p_minIncome :: int

record combination =
  comb_id :: string
  params :: combo_params

record parameter_ranges =
  r_minAge :: "int list"
  r_maxAge :: "int list"
  r_excludeMarried :: "bool list"
  r_race :: "int list"
  r_minHeight :: "int list"
  r_excludeObese :: "bool list"
  r_minIncome :: "int list"

definition parameterRanges :: parameter_ranges where
  "parameterRanges =
     \<lparr> r_minAge = [18, 20, 22, 25, 28, 30, 32, 35, 38, 40, 45, 50],
       r_maxAge = [22, 25, 28, 30, 32, 35, 38, 40, 45, 50, 55, 60, 65],
       r_excludeMarried = [True, False],
       r_race = [0, 1, 2, 3],
       r_minHeight = [0, 150, 155, 160, 165, 170, 175, 180, 185, 190],
       r_excludeObese = [True, False],
       r_minIncome = [0, 30000, 50000, 75000, 100000, 150000, 200000, 300000, 500000] \<rparr>"

definition batchSize :: nat where
  "batchSize = 10"

definition retryAttempts :: nat where
  "retryAttempts = 3"

definition string_of_bool :: "bool \<Rightarrow> string" where
  "string_of_bool b = (if b then ''true'' else ''false'')"

definition generateCombinationId :: "combo_params \<Rightarrow> string" where
  "generateCombinationId p =
     string_of_int (p_minAge p) @ ''-'' @ string_of_int (p_maxAge p) @ ''-''
     @ string_of_bool (p_excludeMarried p) @ ''-'' @ string_of_int (p_race p) @ ''-''
     @ string_of_int (p_minHeight p) @ ''-'' @ string_of_bool (p_excludeObese p) @ ''-''
     @ string_of_int (p_minIncome p)"

definition mk_combination :: "int \<Rightarrow> int \<Rightarrow> bool \<Rightarrow> int \<Rightarrow> int \<Rightarrow> bool \<Rightarrow> int \<Rightarrow> combination" where
  "mk_combination minAgeVal maxAgeVal excludeMarriedVal raceVal minHeightVal excludeObeseVal
     minIncomeVal =
     (let combination = \<lparr> p_minAge = minAgeVal, p_maxAge = maxAgeVal,
                            p_excludeMarried = excludeMarriedVal, p_race = raceVal,
                            p_minHeight = minHeightVal, p_excludeObese = excludeObeseVal,
                            p_minIncome = minIncomeVal \<rparr>
      in \<lparr> comb_id = generateCombinationId combination, params = combination \<rparr>)"

text \<open>The seven nested loops, outermost first; a pair with \<open>minAgeVal >= maxAgeVal\<close> is
  skipped before the inner loops run.\<close>

definition generateAllCombinations :: "parameter_ranges \<Rightarrow> combination list" where
  "generateAllCombinations R =
     concat (map (\<lambda>minAgeVal.
       concat (map (\<lambda>maxAgeVal.
         if minAgeVal \<ge> maxAgeVal then []
         else
           concat (map (\<lambda>excludeMarriedVal.
             concat (map (\<lambda>raceVal.
               concat (map (\<lambda>minHeightVal.
                 concat (map (\<lambda>excludeObeseVal.
                   map (\<lambda>minIncomeVal.
                     mk_combination minAgeVal maxAgeVal excludeMarriedVal raceVal minHeightVal
                       excludeObeseVal minIncomeVal)
                   (r_minIncome R))
                 (r_excludeObese R)))
               (r_minHeight R)))
             (r_race R)))
           (r_excludeMarried R)))
       (r_maxAge R)))
     (r_minAge R))"

text \<open>A tuple of the cartesian product of the grids that passes the age filter.\<close>

definition valid_tuple :: "parameter_ranges \<Rightarrow> combo_params \<Rightarrow> bool" where
  "valid_tuple R p =
     (p_minAge p \<in> set (r_minAge R) \<and> p_maxAge p \<in> set (r_maxAge R)
      \<and> p_excludeMarried p \<in> set (r_excludeMarried R) \<and> p_race p \<in> set (r_race R)
      \<and> p_minHeight p \<in> set (r_minHeight R) \<and> p_excludeObese p \<in> set (r_excludeObese R)
      \<and> p_minIncome p \<in> set (r_minIncome R) \<and> p_minAge p < p_maxAge p)"

definition valid_age_pairs :: "parameter_ranges \<Rightarrow> (int \<times> int) list" where
  "valid_age_pairs R = filter (\<lambda>(a, b). a < b) (List.product (r_minAge R) (r_maxAge R))"

text \<open>The sample parameters of the command line's \<open>test\<close> command.\<close>

definition testParams :: combo_params where
  "testParams =
     \<lparr> p_minAge = 25, p_maxAge = 35, p_excludeMarried = True, p_race = 0, p_minHeight = 170,
       p_excludeObese = True, p_minIncome = 100000 \<rparr>"

text \<open>The access count stored for a key, if the key is cached.\<close>

definition entry_accessCount :: "'d cache_manager \<Rightarrow> string \<Rightarrow> nat option" where
  "entry_accessCount cm key = (case cache cm key of None \<Rightarrow> None | Some e \<Rightarrow> accessCount e)"

text \<open>A stand-in digest (the identity), and environments in which every write to a file
  succeeds or every write fails.\<close>

definition plain_digest :: "string \<Rightarrow> string" where
  "plain_digest s = s"

definition all_writable :: "disk_file \<Rightarrow> bool" where
  "all_writable f = True"

definition none_writable :: "disk_file \<Rightarrow> bool" where
  "none_writable f = False"

text \<open>A scraper stub that returns the same payload for every request.\<close>

definition always_42 :: "raw_criteria \<Rightarrow> js_error + string" where
  "always_42 c = Inr ''42%''"


section \<open>DataCachingSystem: files, retrying fetch and batch driver (cache-system.js)\<close>

text \<open>
  What \<open>page.evaluate\<close> returns: the three result fields, each present or not, and the
  auxiliary fragments.
\<close>

record page_results =
  probability :: "string option"
  delusionScoreNumber :: "string option"
  delusionScore :: "string option"
  fragments :: "string list"

text \<open>One pass through the browser calls of the \<open>try\<close> block (\<open>newPage\<close>, \<open>goto\<close>,
  \<open>waitForTimeout\<close>, \<open>evaluate\<close>, \<open>close\<close>): an exception with its message, or the
  extracted data.\<close>

datatype page_outcome = PageThrows string | PageData page_results

record cached_result =
  result_data :: page_results
  result_timestamp :: string
  parameters :: combo_params

text \<open>An entry of the error log (the stack trace is left out).\<close>

record error_record =
  err_timestamp :: string
  err_combination :: combination
  err_message :: string

record progress =
  totalCombinations :: nat
  processed :: nat
  currentIndex :: nat
  startTime :: "string option"
  lastProcessedAt :: "string option"
  errors :: nat
  successes :: nat

text \<open>The three files of the cache directory; \<open>None\<close> is a file that does not exist.\<close>

record disk_state =
  progressFile :: "progress option"
  resultsFile :: "(string \<rightharpoonup> cached_result) option"
  errorLogFile :: "error_record list option"

text \<open>
  The environment of a run: which files can be written, whether the browser launches,
  what the \<open>n\<close>-th page load of the run yields for a combination, and the clock reading
  used for time stamps.
\<close>

record env =
  can_write :: "disk_file \<Rightarrow> bool"
  launches :: bool
  page :: "nat \<Rightarrow> combination \<Rightarrow> page_outcome"
  clock :: string

text \<open>
  The state of a run: the disk, the variables of \<open>startCaching\<close>, and the log of page
  loads made so far (combination id and attempt number), kept to count fetches.
\<close>

record run_state =
  disk :: disk_state
  existingResults :: "string \<rightharpoonup> cached_result"
  processedCount :: nat
  successCount :: nat
  errorCount :: nat
  fetches :: "(string \<times> nat) list"

definition saveProgress :: "env \<Rightarrow> progress \<Rightarrow> disk_state \<Rightarrow> js_error + disk_state" where
  "saveProgress E p d =
     (case writeFile (can_write E) ProgressFile p (progressFile d) of
        Inl err \<Rightarrow> Inl err
      | Inr f \<Rightarrow> Inr (d\<lparr>progressFile := f\<rparr>))"

definition saveResults ::
  "env \<Rightarrow> (string \<rightharpoonup> cached_result) \<Rightarrow> disk_state \<Rightarrow> js_error + disk_state" where
  "saveResults E results d =
     (case writeFile (can_write E) ResultsFile results (resultsFile d) of
        Inl err \<Rightarrow> Inl err
      | Inr f \<Rightarrow> Inr (d\<lparr>resultsFile := f\<rparr>))"

definition loadResults :: "disk_state \<Rightarrow> (string \<rightharpoonup> cached_result)" where
  "loadResults d = (case resultsFile d of Some m \<Rightarrow> m | None \<Rightarrow> Map.empty)"

definition loadErrors :: "disk_state \<Rightarrow> error_record list" where
  "loadErrors d = (case errorLogFile d of Some es \<Rightarrow> es | None \<Rightarrow> [])"

text \<open>\<open>logError\<close> catches a failed write of the log and prints it.\<close>

definition logError :: "env \<Rightarrow> combination \<Rightarrow> string \<Rightarrow> disk_state \<Rightarrow> disk_state" where
  "logError E c msg d =
     (let errs = loadErrors d @ [\<lparr> err_timestamp = clock E, err_combination = c,
                                    err_message = msg \<rparr>]
      in case writeFile (can_write E) ErrorLogFile errs (errorLogFile d) of
           Inr f \<Rightarrow> d\<lparr>errorLogFile := f\<rparr>
         | Inl logErr \<Rightarrow> d)"

definition string_truthy :: "string option \<Rightarrow> bool" where
  "string_truthy s = (case s of None \<Rightarrow> False | Some t \<Rightarrow> t \<noteq> [])"

text \<open>The body of the \<open>try\<close> block of \<open>scrapeWithRetry\<close> for the \<open>n\<close>-th page load of
  the run.\<close>

definition scrape_attempt :: "env \<Rightarrow> nat \<Rightarrow> combination \<Rightarrow> string + cached_result" where
  "scrape_attempt E n c =
     (case page E n c of
        PageThrows msg \<Rightarrow> Inl msg
      | PageData results \<Rightarrow>
          if \<not> string_truthy (probability results) \<and> \<not> string_truthy (delusionScore results)
             \<and> \<not> string_truthy (delusionScoreNumber results)
          then Inl ''No valid results found on page''
          else Inr \<lparr> result_data = results, result_timestamp = clock E,
                     parameters = params c \<rparr>)"

function scrapeWithRetry ::
  "env \<Rightarrow> combination \<Rightarrow> nat \<Rightarrow> run_state \<Rightarrow> (string + cached_result) \<times> run_state" where
  "scrapeWithRetry E c attempt st =
     (let st1 = st\<lparr>fetches := fetches st @ [(comb_id c, attempt)]\<rparr>
      in case scrape_attempt E (length (fetches st)) c of
           Inr r \<Rightarrow> (Inr r, st1)
         | Inl msg \<Rightarrow>
             if attempt < retryAttempts then scrapeWithRetry E c (attempt + 1) st1
             else (Inl msg, st1\<lparr>disk := logError E c msg (disk st1)\<rparr>))"
  by pat_completeness auto
termination
  by (relation "measure (\<lambda>(E, c, attempt, st). retryAttempts - attempt)") auto

declare scrapeWithRetry.simps [simp del]

text \<open>
  The body of the inner loop for the combination at position \<open>idx - 1\<close> of the list
  (\<open>idx = i + batch.indexOf(combination) + 1\<close>).  The result is the pending exception, if
  any, and the state.  A failed write of the results file is caught by the handler around
  the fetch; a failed write of the progress file is not caught.
\<close>

text \<open>
  The test \<open>if (existingResults[combination.id])\<close> on the object parsed from the results
  file: an own entry (a result object, which is truthy) or a member inherited from
  \<open>Object.prototype\<close>.
\<close>

definition store_has :: "(string \<rightharpoonup> cached_result) \<Rightarrow> string \<Rightarrow> bool" where
  "store_has m k = (m k \<noteq> None \<or> k \<in> set object_prototype_names)"

definition processItem ::
  "env \<Rightarrow> nat \<Rightarrow> string option \<Rightarrow> nat \<Rightarrow> combination \<Rightarrow> run_state
     \<Rightarrow> js_error option \<times> run_state" where
  "processItem E tot start idx c st =
     (if store_has (existingResults st) (comb_id c)
      then (None, st\<lparr>processedCount := processedCount st + 1,
                      successCount := successCount st + 1\<rparr>)
      else
        let (r, st1) = scrapeWithRetry E c 1 st;
            st2 = (case r of
                     Inr result \<Rightarrow>
                       (let st' = st1\<lparr>existingResults := (existingResults st1)(comb_id c \<mapsto> result),
                                      successCount := successCount st1 + 1\<rparr>
                        in case saveResults E (existingResults st') (disk st') of
                             Inr d \<Rightarrow> st'\<lparr>disk := d\<rparr>
                           | Inl err \<Rightarrow> st'\<lparr>errorCount := errorCount st' + 1\<rparr>)
                   | Inl msg \<Rightarrow> st1\<lparr>errorCount := errorCount st1 + 1\<rparr>);
            st3 = st2\<lparr>processedCount := processedCount st2 + 1\<rparr>;
            currentProgress = \<lparr> totalCombinations = tot, processed = processedCount st3,
                                 currentIndex = idx, startTime = start,
                                 lastProcessedAt = Some (clock E), errors = errorCount st3,
                                 successes = successCount st3 \<rparr>
        in case saveProgress E currentProgress (disk st3) of
             Inl err \<Rightarrow> (Some err, st3)
           | Inr d \<Rightarrow> (None, st3\<lparr>disk := d\<rparr>))"

text \<open>The inner loop over one batch that starts at index \<open>i\<close>; \<open>j\<close> is the position in
  the batch, which is what \<open>batch.indexOf(combination)\<close> returns: \<open>indexOf\<close> compares
  object identities, and \<open>generateAllCombinations\<close> pushes a new object for every
  combination.\<close>

fun processBatch ::
  "env \<Rightarrow> nat \<Rightarrow> string option \<Rightarrow> nat \<Rightarrow> combination list \<Rightarrow> nat \<Rightarrow> run_state
     \<Rightarrow> js_error option \<times> run_state" where
  "processBatch E tot start i [] j st = (None, st)"
| "processBatch E tot start i (c # cs) j st =
     (case processItem E tot start (i + j + 1) c st of
        (Some err, st') \<Rightarrow> (Some err, st')
      | (None, st') \<Rightarrow> processBatch E tot start i cs (j + 1) st')"

definition slice :: "'a list \<Rightarrow> nat \<Rightarrow> nat \<Rightarrow> 'a list" where
  "slice xs a b = take (b - a) (drop a xs)"

text \<open>The outer loop: \<open>for (let i = startIndex; i < combinations.length; i += batchSize)\<close>.\<close>

function runBatches ::
  "env \<Rightarrow> combination list \<Rightarrow> string option \<Rightarrow> nat \<Rightarrow> run_state
     \<Rightarrow> js_error option \<times> run_state" where
  "runBatches E combinations start i st =
     (if i < length combinations then
        (let batch = slice combinations i (min (i + batchSize) (length combinations))
         in case processBatch E (length combinations) start i batch 0 st of
              (Some err, st') \<Rightarrow> (Some err, st')
            | (None, st') \<Rightarrow> runBatches E combinations start (i + batchSize) st')
      else (None, st))"
  by pat_completeness auto
termination
  by (relation "measure (\<lambda>(E, combinations, start, i, st). length combinations - i)")
     (auto simp: batchSize_def)

declare runBatches.simps [simp del]

definition initial_progress :: progress where
  "initial_progress =
     \<lparr> totalCombinations = 0, processed = 0, currentIndex = 0, startTime = None,
       lastProcessedAt = None, errors = 0, successes = 0 \<rparr>"

text \<open>\<open>initialize\<close> creates each missing file; any failure is rethrown.\<close>

definition initialize :: "env \<Rightarrow> disk_state \<Rightarrow> js_error + disk_state" where
  "initialize E d =
     (case (if progressFile d = None then saveProgress E initial_progress d else Inr d) of
        Inl err \<Rightarrow> Inl err
      | Inr d1 \<Rightarrow>
          (case (if resultsFile d1 = None then saveResults E Map.empty d1 else Inr d1) of
             Inl err \<Rightarrow> Inl err
           | Inr d2 \<Rightarrow>
               (if errorLogFile d2 = None
                then (case writeFile (can_write E) ErrorLogFile [] (errorLogFile d2) of
                        Inl err \<Rightarrow> Inl err
                      | Inr f \<Rightarrow> Inr (d2\<lparr>errorLogFile := f\<rparr>))
                else Inr d2)))"

text \<open>
  \<open>startCaching\<close> over the grids \<open>R\<close> (\<open>this.parameterRanges\<close>).  The result is the
  exception the promise rejects with, if any, the disk afterwards and the page loads
  made.  After a successful \<open>initialize\<close> the progress file exists.
\<close>

definition startCaching ::
  "env \<Rightarrow> parameter_ranges \<Rightarrow> disk_state \<Rightarrow> js_error option \<times> disk_state \<times> (string \<times> nat) list" where
  "startCaching E R d =
     (case initialize E d of
        Inl err \<Rightarrow> (Some err, d, [])
      | Inr d0 \<Rightarrow>
          (let combinations = generateAllCombinations R
           in case progressFile d0 of
                None \<Rightarrow> (Some (TypeError ''progress is null''), d0, [])
              | Some progress \<Rightarrow>
                  (let startIndex = currentIndex progress;
                       start = (if startIndex = 0 then Some (clock E) else startTime progress);
                       st0 = \<lparr> disk = d0, existingResults = loadResults d0,
                               processedCount = processed progress,
                               successCount = successes progress,
                               errorCount = errors progress, fetches = [] \<rparr>
                   in if \<not> launches E then (Some (FetchError ''browser launch failed''), d0, [])
                      else case runBatches E combinations start startIndex st0 of
                             (err, st) \<Rightarrow> (err, disk st, fetches st))))"

text \<open>The index stored in the progress file, 0 if there is none.\<close>

definition persisted_index :: "disk_state \<Rightarrow> nat" where
  "persisted_index d = (case progressFile d of Some p \<Rightarrow> currentIndex p | None \<Rightarrow> 0)"

subsection \<open>Sample environments and states\<close>

definition failing_env :: env where
  "failing_env =
     \<lparr> can_write = all_writable, launches = True, page = (\<lambda>n c. PageThrows ''Timeout 45000ms exceeded''),
       clock = ''2025-01-01T00:00:00.000Z'' \<rparr>"

definition sample_page :: page_results where
  "sample_page =
     \<lparr> probability = Some ''4.2%'', delusionScoreNumber = Some ''3/5'',
       delusionScore = Some ''Picky'', fragments = [] \<rparr>"

definition working_env :: env where
  "working_env =
     \<lparr> can_write = all_writable, launches = True, page = (\<lambda>n c. PageData sample_page),
       clock = ''2025-01-01T00:00:00.000Z'' \<rparr>"

definition readonly_progress_env :: env where
  "readonly_progress_env = working_env\<lparr>can_write := (\<lambda>f. f \<noteq> ProgressFile)\<rparr>"

definition empty_disk :: disk_state where
  "empty_disk = \<lparr> progressFile = Some initial_progress, resultsFile = Some Map.empty,
                  errorLogFile = Some [] \<rparr>"

text \<open>The failing environment with a disk that rejects every write.\<close>

definition failing_readonly_env :: env where
  "failing_readonly_env = failing_env\<lparr>can_write := none_writable\<rparr>"

definition fresh_state :: run_state where
  "fresh_state =
     \<lparr> disk = empty_disk, existingResults = Map.empty, processedCount = 0, successCount = 0,
       errorCount = 0, fetches = [] \<rparr>"

definition test_combination :: combination where
  "test_combination = \<lparr> comb_id = generateCombinationId testParams, params = testParams \<rparr>"

definition test_result :: cached_result where
  "test_result = \<lparr> result_data = sample_page, result_timestamp = ''2024-12-31T00:00:00.000Z'',
                   parameters = testParams \<rparr>"

text \<open>A state in which the test combination is already in the results store.\<close>

definition cached_state :: run_state where
  "cached_state =
     fresh_state\<lparr>existingResults := [comb_id test_combination \<mapsto> test_result]\<rparr>"

text \<open>Grids with a single combination, the test combination.\<close>

definition single_range :: parameter_ranges where
  "single_range =
     \<lparr> r_minAge = [25], r_maxAge = [35], r_excludeMarried = [True], r_race = [0],
       r_minHeight = [170], r_excludeObese = [True], r_minIncome = [100000] \<rparr>"

subsection \<open>Predicates for stating properties of a run\<close>

text \<open>
  From \<open>st\<close> to \<open>st'\<close> the page loads made were all for ids in \<open>ids\<close> that the results
  store of \<open>st\<close> did not hold, and the store lost no key.
\<close>

definition fetched_only :: "run_state \<Rightarrow> string set \<Rightarrow> run_state \<Rightarrow> bool" where
  "fetched_only st ids st' \<longleftrightarrow>
     (\<exists>new. fetches st' = fetches st @ new
        \<and> (\<forall>f \<in> set new. fst f \<in> ids \<and> \<not> store_has (existingResults st) (fst f)))
     \<and> (\<forall>k. store_has (existingResults st) k \<longrightarrow> store_has (existingResults st') k)"

text \<open>Grids with two combinations, and a disk whose checkpoint says that the first one
  has been processed.\<close>

definition two_range :: parameter_ranges where
  "two_range = single_range\<lparr>r_minIncome := [0, 100000]\<rparr>"

definition resumed_disk :: disk_state where
  "resumed_disk =
     empty_disk\<lparr>progressFile :=
       Some \<lparr> totalCombinations = 2, processed = 1, currentIndex = 1,
              startTime = Some ''2024-12-31T00:00:00.000Z'',
              lastProcessedAt = Some ''2024-12-31T00:00:05.000Z'', errors = 1, successes = 0 \<rparr>\<rparr>"

text \<open>A second combination (the first one of \<open>two_range\<close>) and a third one, a disk
  whose results file holds the second, and an environment in which only the results file
  cannot be written.\<close>

definition otherParams :: combo_params where
  "otherParams = testParams\<lparr>p_minIncome := 0\<rparr>"

definition other_combination :: combination where
  "other_combination = \<lparr> comb_id = generateCombinationId otherParams, params = otherParams \<rparr>"


definition other_cached_disk :: disk_state where
  "other_cached_disk =
     empty_disk\<lparr>resultsFile := Some [comb_id other_combination \<mapsto> test_result]\<rparr>"


section \<open>Properties\<close>

lemma writable_constants [simp]: "all_writable f" "\<not> none_writable f"
  by (simp_all add: all_writable_def none_writable_def)

lemma can_write_failing_readonly_env [simp]: "\<not> can_write failing_readonly_env f"
  by (simp add: failing_readonly_env_def)

lemma normalizeRace_names:
  "normalizeRace (JStr ''any'') = Own (Dec 0 0)" "normalizeRace (JStr ''white'') = Own (Dec 1 0)"
  "normalizeRace (JStr ''black'') = Own (Dec 2 0)" "normalizeRace (JStr ''asian'') = Own (Dec 3 0)"
  by (simp_all add: normalizeRace_def raceMapping_def opt_toString_def)

lemma normalizeRace_codes:
  "normalizeRace (JNum (Dec 0 0)) = Own (Dec 0 0)" "normalizeRace (JNum (Dec 1 0)) = Own (Dec 1 0)"
  "normalizeRace (JNum (Dec 2 0)) = Own (Dec 2 0)" "normalizeRace (JNum (Dec 3 0)) = Own (Dec 3 0)"
  by code_simp+

lemma normalizeRace_string_codes:
  "normalizeRace (JStr ''0'') = Own (Dec 0 0)" "normalizeRace (JStr ''1'') = Own (Dec 1 0)"
  "normalizeRace (JStr ''2'') = Own (Dec 2 0)" "normalizeRace (JStr ''3'') = Own (Dec 3 0)"
  by (simp_all add: normalizeRace_def raceMapping_def opt_toString_def)





lemma raceMapping_undefined: "raceMapping ''undefined'' = None"
  by (simp add: raceMapping_def object_prototype_names_def)







lemma normalizeHeight_any_zero:
  "normalizeHeight (js_or h (JStr ''any'')) = normalizeHeight (js_or h (JNum (Dec 0 0)))"
  by (simp add: js_or_def normalizeHeight_def)

lemma getNormalizedCriteria_race_white:
  "getNormalizedCriteria (c\<lparr>raw_race := JStr ''white''\<rparr>)
   = getNormalizedCriteria (c\<lparr>raw_race := JNum (Dec 1 0)\<rparr>)"
  by (simp add: getNormalizedCriteria_def normalizeRace_names normalizeRace_codes)

lemma getNormalizedCriteria_race_names:
  "getNormalizedCriteria (c\<lparr>raw_race := JStr ''any''\<rparr>)
   = getNormalizedCriteria (c\<lparr>raw_race := JNum (Dec 0 0)\<rparr>)"
  "getNormalizedCriteria (c\<lparr>raw_race := JStr ''black''\<rparr>)
   = getNormalizedCriteria (c\<lparr>raw_race := JNum (Dec 2 0)\<rparr>)"
  "getNormalizedCriteria (c\<lparr>raw_race := JStr ''asian''\<rparr>)
   = getNormalizedCriteria (c\<lparr>raw_race := JNum (Dec 3 0)\<rparr>)"
  by (simp_all add: getNormalizedCriteria_def normalizeRace_names normalizeRace_codes)

lemma getNormalizedCriteria_minAge_string:
  "getNormalizedCriteria (c\<lparr>raw_minAge := JStr (number_toString x)\<rparr>)
   = getNormalizedCriteria (c\<lparr>raw_minAge := JNum x\<rparr>)"
  by (simp add: getNormalizedCriteria_def parseInt_def)

lemma getNormalizedCriteria_minHeight_any:
  "getNormalizedCriteria (c\<lparr>raw_minHeight := JStr ''any''\<rparr>)
   = getNormalizedCriteria (c\<lparr>raw_minHeight := JNum (Dec 0 0)\<rparr>)"
  by (simp add: getNormalizedCriteria_def normalizeHeight_any_zero)

lemma generateKey_cong:
  "getNormalizedCriteria a = getNormalizedCriteria b \<Longrightarrow> generateKey md5 a = generateKey md5 b"
  by (simp add: generateKey_def)

lemma normalizeRace_absent:
  "normalizeRace JUndefined = Own (Dec 0 0)" "normalizeRace JNull = Own (Dec 0 0)"
  by (simp_all add: normalizeRace_def opt_toString_def raceMapping_undefined)

lemma generateKey_race:
  "normalizeRace v = normalizeRace w \<Longrightarrow>
   generateKey md5 (c\<lparr>raw_race := v\<rparr>) = generateKey md5 (c\<lparr>raw_race := w\<rparr>)"
  by (rule generateKey_cong) (simp add: getNormalizedCriteria_def)

lemma generateKey_minAge:
  "toString v = toString w \<Longrightarrow>
   generateKey md5 (c\<lparr>raw_minAge := v\<rparr>) = generateKey md5 (c\<lparr>raw_minAge := w\<rparr>)"
  by (rule generateKey_cong) (simp add: getNormalizedCriteria_def parseInt_def)

lemma generateKey_maxAge:
  "toString v = toString w \<Longrightarrow>
   generateKey md5 (c\<lparr>raw_maxAge := v\<rparr>) = generateKey md5 (c\<lparr>raw_maxAge := w\<rparr>)"
  by (rule generateKey_cong) (simp add: getNormalizedCriteria_def parseInt_def)

lemma generateKey_income:
  "toString v = toString w \<Longrightarrow> truthy v = truthy w \<Longrightarrow>
   generateKey md5 (c\<lparr>raw_income := v\<rparr>) = generateKey md5 (c\<lparr>raw_income := w\<rparr>)"
  by (rule generateKey_cong) (simp add: getNormalizedCriteria_def parseInt_def js_or_def)

lemma generateKey_minIncome:
  "toString v = toString w \<Longrightarrow> truthy v = truthy w \<Longrightarrow>
   generateKey md5 (c\<lparr>raw_minIncome := v\<rparr>) = generateKey md5 (c\<lparr>raw_minIncome := w\<rparr>)"
  by (rule generateKey_cong) (simp add: getNormalizedCriteria_def parseInt_def js_or_def)

lemma generateKey_excludeMarried:
  "truthy v = truthy w \<Longrightarrow>
   generateKey md5 (c\<lparr>raw_excludeMarried := v\<rparr>) = generateKey md5 (c\<lparr>raw_excludeMarried := w\<rparr>)"
  by (rule generateKey_cong) (simp add: getNormalizedCriteria_def Boolean_def)

lemma generateKey_excludeObese:
  "truthy v = truthy w \<Longrightarrow>
   generateKey md5 (c\<lparr>raw_excludeObese := v\<rparr>) = generateKey md5 (c\<lparr>raw_excludeObese := w\<rparr>)"
  by (rule generateKey_cong) (simp add: getNormalizedCriteria_def Boolean_def)

lemma generateKey_WHITE:
  "generateKey plain_digest (no_criteria\<lparr>raw_race := JStr ''WHITE''\<rparr>) =
     ''{\"excludeMarried\":false,\"excludeObese\":false,\"maxAge\":35,\"minAge\":25,\"minHeight\":0,\"minIncome\":0,\"race\":0}''"
  by code_simp

lemma generateKey_white:
  "generateKey plain_digest (no_criteria\<lparr>raw_race := JStr ''white''\<rparr>) =
     ''{\"excludeMarried\":false,\"excludeObese\":false,\"maxAge\":35,\"minAge\":25,\"minHeight\":0,\"minIncome\":0,\"race\":1}''"
  by code_simp

lemma toString_25: "toString (JNum (Dec 25 0)) = toString (JStr ''25'')"
  by code_simp

text \<open>
  C1 (as amended).  Two raw inputs with the same normalized criteria have the same cache
  key, whatever the digest.  In any raw input the key does not change when race is given
  as one of the four lower-case names, as its numeric code or as the digit string of the
  code; when race is absent, null or \<open>any\<close>; when \<open>minHeight\<close> \<open>any\<close> is replaced by the number
  0; when \<open>minAge\<close> or \<open>maxAge\<close> is replaced by a value with the same string form (a number
  and its decimal string); when \<open>income\<close> or \<open>minIncome\<close> is replaced by a value with the
  same string form and the same truthiness; or when a boolean field is replaced by a
  value of the same truthiness.  Letter case is not among these differences.
\<close>

theorem generateKey_normalization_equivalence:
  "(getNormalizedCriteria a = getNormalizedCriteria b \<longrightarrow> generateKey md5 a = generateKey md5 b)
   \<and> generateKey md5 (c\<lparr>raw_race := JStr ''any''\<rparr>) = generateKey md5 (c\<lparr>raw_race := JNum (Dec 0 0)\<rparr>)
   \<and> generateKey md5 (c\<lparr>raw_race := JStr ''white''\<rparr>) = generateKey md5 (c\<lparr>raw_race := JNum (Dec 1 0)\<rparr>)
   \<and> generateKey md5 (c\<lparr>raw_race := JStr ''black''\<rparr>) = generateKey md5 (c\<lparr>raw_race := JNum (Dec 2 0)\<rparr>)
   \<and> generateKey md5 (c\<lparr>raw_race := JStr ''asian''\<rparr>) = generateKey md5 (c\<lparr>raw_race := JNum (Dec 3 0)\<rparr>)
   \<and> generateKey md5 (c\<lparr>raw_race := JStr ''0''\<rparr>) = generateKey md5 (c\<lparr>raw_race := JNum (Dec 0 0)\<rparr>)
   \<and> generateKey md5 (c\<lparr>raw_race := JStr ''1''\<rparr>) = generateKey md5 (c\<lparr>raw_race := JNum (Dec 1 0)\<rparr>)
   \<and> generateKey md5 (c\<lparr>raw_race := JStr ''2''\<rparr>) = generateKey md5 (c\<lparr>raw_race := JNum (Dec 2 0)\<rparr>)
   \<and> generateKey md5 (c\<lparr>raw_race := JStr ''3''\<rparr>) = generateKey md5 (c\<lparr>raw_race := JNum (Dec 3 0)\<rparr>)
   \<and> generateKey md5 (c\<lparr>raw_race := JUndefined\<rparr>) = generateKey md5 (c\<lparr>raw_race := JStr ''any''\<rparr>)
   \<and> generateKey md5 (c\<lparr>raw_race := JNull\<rparr>) = generateKey md5 (c\<lparr>raw_race := JStr ''any''\<rparr>)
   \<and> generateKey md5 (c\<lparr>raw_minHeight := JStr ''any''\<rparr>)
       = generateKey md5 (c\<lparr>raw_minHeight := JNum (Dec 0 0)\<rparr>)
   \<and> generateKey md5 (c\<lparr>raw_minAge := JStr (number_toString x)\<rparr>)
       = generateKey md5 (c\<lparr>raw_minAge := JNum x\<rparr>)
   \<and> (toString v = toString w \<longrightarrow>
        generateKey md5 (c\<lparr>raw_minAge := v\<rparr>) = generateKey md5 (c\<lparr>raw_minAge := w\<rparr>)
        \<and> generateKey md5 (c\<lparr>raw_maxAge := v\<rparr>) = generateKey md5 (c\<lparr>raw_maxAge := w\<rparr>))
   \<and> (toString v = toString w \<and> truthy v = truthy w \<longrightarrow>
        generateKey md5 (c\<lparr>raw_income := v\<rparr>) = generateKey md5 (c\<lparr>raw_income := w\<rparr>)
        \<and> generateKey md5 (c\<lparr>raw_minIncome := v\<rparr>) = generateKey md5 (c\<lparr>raw_minIncome := w\<rparr>))
   \<and> (truthy v = truthy w \<longrightarrow>
        generateKey md5 (c\<lparr>raw_excludeMarried := v\<rparr>)
          = generateKey md5 (c\<lparr>raw_excludeMarried := w\<rparr>)
        \<and> generateKey md5 (c\<lparr>raw_excludeObese := v\<rparr>)
          = generateKey md5 (c\<lparr>raw_excludeObese := w\<rparr>))"
proof (intro conjI impI)
  assume "getNormalizedCriteria a = getNormalizedCriteria b"
  then show "generateKey md5 a = generateKey md5 b"
    by (rule generateKey_cong)
next
  show "generateKey md5 (c\<lparr>raw_minHeight := JStr ''any''\<rparr>)
      = generateKey md5 (c\<lparr>raw_minHeight := JNum (Dec 0 0)\<rparr>)"
    by (rule generateKey_cong) (rule getNormalizedCriteria_minHeight_any)
next
  show "generateKey md5 (c\<lparr>raw_minAge := JStr (number_toString x)\<rparr>)
      = generateKey md5 (c\<lparr>raw_minAge := JNum x\<rparr>)"
    by (rule generateKey_minAge) simp
next
  assume "toString v = toString w"
  then show "generateKey md5 (c\<lparr>raw_minAge := v\<rparr>) = generateKey md5 (c\<lparr>raw_minAge := w\<rparr>)"
    and "generateKey md5 (c\<lparr>raw_maxAge := v\<rparr>) = generateKey md5 (c\<lparr>raw_maxAge := w\<rparr>)"
    by (rule generateKey_minAge, rule generateKey_maxAge)
next
  assume h: "toString v = toString w \<and> truthy v = truthy w"
  show "generateKey md5 (c\<lparr>raw_income := v\<rparr>) = generateKey md5 (c\<lparr>raw_income := w\<rparr>)"
    by (rule generateKey_income) (simp_all add: h)
  show "generateKey md5 (c\<lparr>raw_minIncome := v\<rparr>) = generateKey md5 (c\<lparr>raw_minIncome := w\<rparr>)"
    by (rule generateKey_minIncome) (simp_all add: h)
next
  assume "truthy v = truthy w"
  then show "generateKey md5 (c\<lparr>raw_excludeMarried := v\<rparr>)
      = generateKey md5 (c\<lparr>raw_excludeMarried := w\<rparr>)"
    and "generateKey md5 (c\<lparr>raw_excludeObese := v\<rparr>)
      = generateKey md5 (c\<lparr>raw_excludeObese := w\<rparr>)"
    by (rule generateKey_excludeMarried, rule generateKey_excludeObese)
qed (rule generateKey_race,
     simp add: normalizeRace_names normalizeRace_codes normalizeRace_string_codes
       normalizeRace_absent)+

theorem generateKey_normalization_equivalence_witness:
  "no_criteria\<lparr>raw_race := JStr ''white'', raw_minHeight := JStr ''any''\<rparr>
     \<noteq> no_criteria\<lparr>raw_race := JNum (Dec 1 0), raw_minHeight := JNum (Dec 0 0)\<rparr>
   \<and> getNormalizedCriteria (no_criteria\<lparr>raw_race := JStr ''white'', raw_minHeight := JStr ''any''\<rparr>)
       = getNormalizedCriteria
           (no_criteria\<lparr>raw_race := JNum (Dec 1 0), raw_minHeight := JNum (Dec 0 0)\<rparr>)
   \<and> generateKey plain_digest (no_criteria\<lparr>raw_race := JStr ''white'', raw_minHeight := JStr ''any''\<rparr>)
       = generateKey plain_digest
           (no_criteria\<lparr>raw_race := JNum (Dec 1 0), raw_minHeight := JNum (Dec 0 0)\<rparr>)
   \<and> toString (JNum (Dec 25 0)) = toString (JStr ''25'')
   \<and> generateKey plain_digest (no_criteria\<lparr>raw_maxAge := JNum (Dec 25 0)\<rparr>)
       = generateKey plain_digest (no_criteria\<lparr>raw_maxAge := JStr ''25''\<rparr>)
   \<and> truthy (JStr ''yes'') = truthy (JBool True)
   \<and> generateKey plain_digest (no_criteria\<lparr>raw_excludeObese := JStr ''yes''\<rparr>)
       = generateKey plain_digest (no_criteria\<lparr>raw_excludeObese := JBool True\<rparr>)
   \<and> truthy (JNum (Dec 25 0)) = truthy (JStr ''25'')
   \<and> generateKey plain_digest (no_criteria\<lparr>raw_income := JNum (Dec 25 0)\<rparr>)
       = generateKey plain_digest (no_criteria\<lparr>raw_income := JStr ''25''\<rparr>)"
proof -
  have n: "getNormalizedCriteria
        (no_criteria\<lparr>raw_race := JStr ''white'', raw_minHeight := JStr ''any''\<rparr>)
      = getNormalizedCriteria
          (no_criteria\<lparr>raw_race := JNum (Dec 1 0), raw_minHeight := JNum (Dec 0 0)\<rparr>)"
    by (simp add: getNormalizedCriteria_def normalizeRace_names normalizeRace_codes
        normalizeHeight_any_zero)
  have d: "no_criteria\<lparr>raw_race := JStr ''white'', raw_minHeight := JStr ''any''\<rparr>
      \<noteq> no_criteria\<lparr>raw_race := JNum (Dec 1 0), raw_minHeight := JNum (Dec 0 0)\<rparr>"
    by (simp add: no_criteria_def)
  have t: "truthy (JStr ''yes'') = truthy (JBool True)"
    by simp
  have t2: "truthy (JNum (Dec 25 0)) = truthy (JStr ''25'')"
    by simp
  from generateKey_normalization_equivalence
    [where a = "no_criteria\<lparr>raw_race := JStr ''white'', raw_minHeight := JStr ''any''\<rparr>"
       and b = "no_criteria\<lparr>raw_race := JNum (Dec 1 0), raw_minHeight := JNum (Dec 0 0)\<rparr>"
       and ?md5.0 = plain_digest and c = no_criteria and x = NaN
       and v = "JNum (Dec 25 0)" and w = "JStr ''25''"] n toString_25 t2
  have k1: "generateKey plain_digest
        (no_criteria\<lparr>raw_race := JStr ''white'', raw_minHeight := JStr ''any''\<rparr>)
      = generateKey plain_digest
          (no_criteria\<lparr>raw_race := JNum (Dec 1 0), raw_minHeight := JNum (Dec 0 0)\<rparr>)"
    and k2: "generateKey plain_digest (no_criteria\<lparr>raw_maxAge := JNum (Dec 25 0)\<rparr>)
      = generateKey plain_digest (no_criteria\<lparr>raw_maxAge := JStr ''25''\<rparr>)"
    and k4: "generateKey plain_digest (no_criteria\<lparr>raw_income := JNum (Dec 25 0)\<rparr>)
      = generateKey plain_digest (no_criteria\<lparr>raw_income := JStr ''25''\<rparr>)"
    by simp_all
  from generateKey_normalization_equivalence
    [where a = no_criteria and b = no_criteria
       and ?md5.0 = plain_digest and c = no_criteria and x = NaN
       and v = "JStr ''yes''" and w = "JBool True"] t
  have k3: "generateKey plain_digest (no_criteria\<lparr>raw_excludeObese := JStr ''yes''\<rparr>)
      = generateKey plain_digest (no_criteria\<lparr>raw_excludeObese := JBool True\<rparr>)"
    by simp
  from n d t t2 toString_25 k1 k2 k3 k4 show ?thesis
    by simp
qed

theorem race_case_key_counterexample:
  "generateKey plain_digest (no_criteria\<lparr>raw_race := JStr ''WHITE''\<rparr>) =
     ''{\"excludeMarried\":false,\"excludeObese\":false,\"maxAge\":35,\"minAge\":25,\"minHeight\":0,\"minIncome\":0,\"race\":0}''
   \<and> generateKey plain_digest (no_criteria\<lparr>raw_race := JStr ''white''\<rparr>) =
     ''{\"excludeMarried\":false,\"excludeObese\":false,\"maxAge\":35,\"minAge\":25,\"minHeight\":0,\"minIncome\":0,\"race\":1}''
   \<and> generateKey plain_digest (no_criteria\<lparr>raw_race := JStr ''WHITE''\<rparr>)
       \<noteq> generateKey plain_digest (no_criteria\<lparr>raw_race := JStr ''white''\<rparr>)"
  by (simp add: generateKey_WHITE generateKey_white)

lemma parseInt_abc: "parseInt (JStr ''abc'') = NaN"
  by (simp add: parseInt_def parseInt_str_def strip_sign_def is_ws_def is_digit_def)

text \<open>
  C7.  At the raw input \<open>{income: "abc"}\<close> the normalized \<open>minIncome\<close> is \<open>NaN\<close>, not the
  default 0: the fallback \<open>|| 0\<close> sits inside the argument of \<open>parseInt\<close>, so it replaces
  a falsy input but not an unparsable one.  The key text then carries \<open>null\<close> for it.
\<close>

theorem minIncome_not_defaulted:
  "minIncome (getNormalizedCriteria (no_criteria\<lparr>raw_income := JStr ''abc''\<rparr>)) = NaN
   \<and> minIncome (getNormalizedCriteria (no_criteria\<lparr>raw_income := JStr ''abc''\<rparr>)) \<noteq> Dec 0 0
   \<and> minIncome (getNormalizedCriteria (no_criteria\<lparr>raw_minIncome := JStr ''abc''\<rparr>)) = NaN"
  by (simp add: getNormalizedCriteria_def no_criteria_def js_or_def parseInt_abc)

lemma saveToFile_cache:
  "\<exists>f. saveToFile wr cm = Inr (cm\<lparr>cacheFile := f\<rparr>)
       \<and> f = (if wr CacheFile then Some (cache cm) else cacheFile cm)"
  by (simp add: saveToFile_def writeFile_def)

lemma getResults_miss:
  assumes "cache cm (generateKey md5 crit) = None" and "scrape crit = Inr r"
  shows "getResults md5 wr now scrape cm crit =
     (Inr \<lparr> payload = r, fromCache = False, cacheKey = generateKey md5 crit,
            cachedAt = None, env_accessCount = None \<rparr>,
      cm\<lparr>cache := (cache cm)(generateKey md5 crit \<mapsto>
             \<lparr> criteria = getNormalizedCriteria crit, data = r, timestamp = now,
               accessCount = Some 1, lastAccessed = None \<rparr>),
         cacheFile := (if wr CacheFile
            then Some ((cache cm)(generateKey md5 crit \<mapsto>
             \<lparr> criteria = getNormalizedCriteria crit, data = r, timestamp = now,
               accessCount = Some 1, lastAccessed = None \<rparr>))
            else cacheFile cm)\<rparr>)"
  using assms
  by (simp add: getResults_def get_cm_def set_cm_def saveToFile_def writeFile_def Let_def)

lemma getResults_hit:
  assumes "cache cm (generateKey md5 crit) = Some e"
  shows "fst (getResults md5 wr now scrape cm crit) =
     Inr \<lparr> payload = data e, fromCache = True, cacheKey = generateKey md5 crit,
           cachedAt = Some (timestamp e), env_accessCount = accessCount e \<rparr>"
    and "cache (snd (getResults md5 wr now scrape cm crit)) (generateKey md5 crit) =
     Some (e\<lparr>accessCount := Some (count_or_one (accessCount e) + 1), lastAccessed := Some now\<rparr>)"
  using assms
  by (simp_all add: getResults_def get_cm_def updateAccess_def saveToFile_def writeFile_def
      Let_def)

lemma getResults_twice:
  assumes "cache cm (generateKey md5 crit) = None" and "scrape1 crit = Inr r"
  shows "fst (getResults md5 wr now1 scrape1 cm crit) =
       Inr \<lparr> payload = r, fromCache = False, cacheKey = generateKey md5 crit,
             cachedAt = None, env_accessCount = None \<rparr>
    \<and> entry_accessCount (snd (getResults md5 wr now1 scrape1 cm crit)) (generateKey md5 crit)
         = Some 1
    \<and> fst (getResults md5 wr now2 scrape2 (snd (getResults md5 wr now1 scrape1 cm crit)) crit) =
       Inr \<lparr> payload = r, fromCache = True, cacheKey = generateKey md5 crit,
             cachedAt = Some now1, env_accessCount = Some 1 \<rparr>
    \<and> entry_accessCount
           (snd (getResults md5 wr now2 scrape2
                   (snd (getResults md5 wr now1 scrape1 cm crit)) crit))
           (generateKey md5 crit)
         = Some 2"
proof (intro conjI)
  let ?e = "\<lparr> criteria = getNormalizedCriteria crit, data = r, timestamp = now1,
               accessCount = Some (1::nat), lastAccessed = None \<rparr>"
  let ?cm1 = "snd (getResults md5 wr now1 scrape1 cm crit)"
  have c1: "cache ?cm1 (generateKey md5 crit) = Some ?e"
    using assms by (simp add: getResults_miss)
  show "fst (getResults md5 wr now1 scrape1 cm crit) =
       Inr \<lparr> payload = r, fromCache = False, cacheKey = generateKey md5 crit,
             cachedAt = None, env_accessCount = None \<rparr>"
    using assms by (simp add: getResults_miss)
  show "entry_accessCount ?cm1 (generateKey md5 crit) = Some 1"
    by (simp add: entry_accessCount_def c1)
  show "fst (getResults md5 wr now2 scrape2 ?cm1 crit) =
       Inr \<lparr> payload = r, fromCache = True, cacheKey = generateKey md5 crit,
             cachedAt = Some now1, env_accessCount = Some 1 \<rparr>"
    using getResults_hit(1) [OF c1] by simp
  show "entry_accessCount (snd (getResults md5 wr now2 scrape2 ?cm1 crit)) (generateKey md5 crit)
        = Some 2"
    using getResults_hit(2) [OF c1, of wr now2 scrape2]
    by (simp add: entry_accessCount_def count_or_one_def)
qed

text \<open>
  C8 (as amended).  When the key of the criteria is not cached and the scrape succeeds,
  the first request is a miss (\<open>fromCache = false\<close>) and creates an entry with
  \<open>accessCount = 1\<close>; an identical second request returns the cached payload with
  \<open>fromCache = true\<close> and \<open>accessCount = 1\<close>, the count read before the hit is recorded,
  and leaves the stored entry with \<open>accessCount = 2\<close>.
\<close>

theorem getResults_first_miss_second_hit:
  "cache cm (generateKey md5 crit) = None \<and> scrape1 crit = Inr r \<longrightarrow>
     fst (getResults md5 wr now1 scrape1 cm crit) =
       Inr \<lparr> payload = r, fromCache = False, cacheKey = generateKey md5 crit,
             cachedAt = None, env_accessCount = None \<rparr>
     \<and> entry_accessCount (snd (getResults md5 wr now1 scrape1 cm crit)) (generateKey md5 crit)
         = Some 1
     \<and> fst (getResults md5 wr now2 scrape2 (snd (getResults md5 wr now1 scrape1 cm crit)) crit) =
       Inr \<lparr> payload = r, fromCache = True, cacheKey = generateKey md5 crit,
             cachedAt = Some now1, env_accessCount = Some 1 \<rparr>
     \<and> entry_accessCount
           (snd (getResults md5 wr now2 scrape2
                   (snd (getResults md5 wr now1 scrape1 cm crit)) crit))
           (generateKey md5 crit)
         = Some 2"
  using getResults_twice [where cm = cm and ?md5.0 = md5 and crit = crit and ?scrape1.0 = scrape1
      and r = r and wr = wr and ?now1.0 = now1 and ?now2.0 = now2 and ?scrape2.0 = scrape2]
  by blast

theorem getResults_first_miss_second_hit_witness:
  "cache (initializeCache None :: string cache_manager) (generateKey plain_digest no_criteria) = None
   \<and> always_42 no_criteria = Inr ''42%''
   \<and> fst (getResults plain_digest all_writable ''t2'' always_42
          (snd (getResults plain_digest all_writable ''t1'' always_42 (initializeCache None) no_criteria))
          no_criteria)
       = Inr \<lparr> payload = ''42%'', fromCache = True, cacheKey = generateKey plain_digest no_criteria,
               cachedAt = Some ''t1'', env_accessCount = Some 1 \<rparr>
   \<and> entry_accessCount
         (snd (getResults plain_digest all_writable ''t2'' always_42
            (snd (getResults plain_digest all_writable ''t1'' always_42 (initializeCache None)
                    no_criteria)) no_criteria))
         (generateKey plain_digest no_criteria)
       = Some 2"
proof -
  have e: "cache (initializeCache None :: string cache_manager) (generateKey plain_digest no_criteria)
      = None"
    by (simp add: initializeCache_def)
  have s: "always_42 no_criteria = Inr ''42%''"
    by (simp add: always_42_def)
  from getResults_first_miss_second_hit
    [where cm = "initializeCache None" and ?md5.0 = plain_digest and crit = no_criteria
      and ?scrape1.0 = always_42 and r = "''42%''" and wr = all_writable and ?now1.0 = "''t1''"
      and ?now2.0 = "''t2''" and ?scrape2.0 = always_42] e s
  show ?thesis by (simp only: simp_thms)
qed

theorem second_request_accessCount_counterexample:
  "fst (getResults plain_digest all_writable ''t2'' always_42
          (snd (getResults plain_digest all_writable ''t1'' always_42 (initializeCache None) no_criteria))
          no_criteria)
     = Inr \<lparr> payload = ''42%'', fromCache = True, cacheKey = generateKey plain_digest no_criteria,
             cachedAt = Some ''t1'', env_accessCount = Some 1 \<rparr>
   \<and> env_accessCount \<lparr> payload = ''42%'', fromCache = True,
        cacheKey = generateKey plain_digest no_criteria,
        cachedAt = Some ''t1'', env_accessCount = Some 1 \<rparr> \<noteq> Some 2"
proof -
  have e: "cache (initializeCache None :: string cache_manager) (generateKey plain_digest no_criteria)
      = None"
    by (simp add: initializeCache_def)
  have s: "always_42 no_criteria = Inr ''42%''"
    by (simp add: always_42_def)
  from getResults_twice [where cm = "initializeCache None" and ?md5.0 = plain_digest
      and crit = no_criteria and ?scrape1.0 = always_42 and r = "''42%''" and wr = all_writable
      and ?now1.0 = "''t1''" and ?now2.0 = "''t2''" and ?scrape2.0 = always_42] e s
  show ?thesis by (simp only: simp_thms envelope.simps option.inject)
qed

lemma length_concat_map_const:
  "(\<And>x. x \<in> set xs \<Longrightarrow> length (f x) = n) \<Longrightarrow> length (concat (map f xs)) = length xs * n"
  by (induction xs) auto

lemma distinct_concat_map:
  "distinct xs \<Longrightarrow> (\<And>x. x \<in> set xs \<Longrightarrow> distinct (f x))
   \<Longrightarrow> (\<And>x y. x \<in> set xs \<Longrightarrow> y \<in> set xs \<Longrightarrow> x \<noteq> y \<Longrightarrow> set (f x) \<inter> set (f y) = {})
   \<Longrightarrow> distinct (concat (map f xs))"
  by (induction xs) auto

lemma in_set_concat_map: "c \<in> set (concat (map f xs)) \<longleftrightarrow> (\<exists>x \<in> set xs. c \<in> set (f x))"
  by auto

lemma in_set_if_skip: "c \<in> set (if (a::int) \<ge> b then [] else ys) \<longleftrightarrow> a < b \<and> c \<in> set ys"
  by auto

lemma in_set_map_eq: "c \<in> set (map f xs) \<longleftrightarrow> (\<exists>x \<in> set xs. c = f x)"
  by auto

lemma params_mk_combination [simp]:
  "params (mk_combination a b m r h ob i) =
     \<lparr> p_minAge = a, p_maxAge = b, p_excludeMarried = m, p_race = r, p_minHeight = h,
       p_excludeObese = ob, p_minIncome = i \<rparr>"
  by (simp add: mk_combination_def Let_def)

lemma comb_id_mk_combination [simp]:
  "comb_id (mk_combination a b m r h ob i) = generateCombinationId (params (mk_combination a b m r h ob i))"
  by (simp add: mk_combination_def Let_def)

lemma in_generateAllCombinations:
  "c \<in> set (generateAllCombinations R) \<longleftrightarrow>
     (\<exists>a \<in> set (r_minAge R). \<exists>b \<in> set (r_maxAge R). a < b \<and>
       (\<exists>m \<in> set (r_excludeMarried R). \<exists>r \<in> set (r_race R). \<exists>h \<in> set (r_minHeight R).
          \<exists>ob \<in> set (r_excludeObese R). \<exists>i \<in> set (r_minIncome R).
             c = mk_combination a b m r h ob i))"
  unfolding generateAllCombinations_def
  by (simp only: in_set_concat_map in_set_if_skip in_set_map_eq)

lemma combination_eq_mk:
  "comb_id (c::combination) = generateCombinationId (params c) \<Longrightarrow>
   c = mk_combination (p_minAge (params c)) (p_maxAge (params c)) (p_excludeMarried (params c))
         (p_race (params c)) (p_minHeight (params c)) (p_excludeObese (params c))
         (p_minIncome (params c))"
proof -
  assume e: "comb_id c = generateCombinationId (params c)"
  obtain i ps where c: "c = \<lparr> comb_id = i, params = ps \<rparr>"
    by (cases c) simp
  obtain a b m r h ob inc where ps: "ps = \<lparr> p_minAge = a, p_maxAge = b, p_excludeMarried = m,
      p_race = r, p_minHeight = h, p_excludeObese = ob, p_minIncome = inc \<rparr>"
    by (cases ps) simp
  from e show ?thesis
    by (simp add: c ps mk_combination_def Let_def)
qed

lemma set_generateAllCombinations:
  "set (generateAllCombinations R) =
     {c. valid_tuple R (params c) \<and> comb_id c = generateCombinationId (params c)}"
proof (rule set_eqI, rule iffI)
  fix c assume "c \<in> set (generateAllCombinations R)"
  then show "c \<in> {c. valid_tuple R (params c) \<and> comb_id c = generateCombinationId (params c)}"
    by (auto simp: in_generateAllCombinations valid_tuple_def)
next
  fix c :: combination assume "c \<in> {c. valid_tuple R (params c) \<and> comb_id c = generateCombinationId (params c)}"
  then have v: "valid_tuple R (params c)" and e: "comb_id c = generateCombinationId (params c)"
    by simp_all
  from v combination_eq_mk [OF e] show "c \<in> set (generateAllCombinations R)"
    unfolding in_generateAllCombinations valid_tuple_def by blast
qed

lemma mk_combination_inj:
  "mk_combination a b m r h ob i = mk_combination a' b' m' r' h' ob' i' \<longleftrightarrow>
     a = a' \<and> b = b' \<and> m = m' \<and> r = r' \<and> h = h' \<and> ob = ob' \<and> i = i'"
  by (auto simp: mk_combination_def Let_def)


lemma distinct_concat_map_tagged:
  assumes "distinct xs"
    and "\<And>x c. x \<in> set xs \<Longrightarrow> c \<in> set (f x) \<Longrightarrow> tag c = x"
    and "\<And>x. x \<in> set xs \<Longrightarrow> distinct (f x)"
  shows "distinct (concat (map f xs))"
proof (rule distinct_concat_map)
  show "distinct xs" by fact
  show "distinct (f x)" if "x \<in> set xs" for x using that assms(3) by blast
  show "set (f x) \<inter> set (f y) = {}" if "x \<in> set xs" "y \<in> set xs" "x \<noteq> y" for x y
    using that assms(2) by blast
qed

lemma distinct_if_skip: "(\<not> c \<Longrightarrow> distinct ys) \<Longrightarrow> distinct (if c then [] else ys)"
  by simp

lemma distinct_generateAllCombinations:
  assumes "distinct (r_minAge R)" "distinct (r_maxAge R)" "distinct (r_excludeMarried R)"
    "distinct (r_race R)" "distinct (r_minHeight R)" "distinct (r_excludeObese R)"
    "distinct (r_minIncome R)"
  shows "distinct (generateAllCombinations R)"
  unfolding generateAllCombinations_def
  apply (rule distinct_concat_map_tagged [where tag = "\<lambda>c. p_minAge (params c)"])
    apply (rule assms)
   apply (auto split: if_splits)[1]
  apply (rule distinct_concat_map_tagged [where tag = "\<lambda>c. p_maxAge (params c)"])
    apply (rule assms)
   apply (auto split: if_splits)[1]
  apply (rule distinct_if_skip)
  apply (rule distinct_concat_map_tagged [where tag = "\<lambda>c. p_excludeMarried (params c)"])
    apply (rule assms)
   apply auto[1]
  apply (rule distinct_concat_map_tagged [where tag = "\<lambda>c. p_race (params c)"])
    apply (rule assms)
   apply auto[1]
  apply (rule distinct_concat_map_tagged [where tag = "\<lambda>c. p_minHeight (params c)"])
    apply (rule assms)
   apply auto[1]
  apply (rule distinct_concat_map_tagged [where tag = "\<lambda>c. p_excludeObese (params c)"])
    apply (rule assms)
   apply auto[1]
  apply (simp add: distinct_map assms inj_on_def mk_combination_inj)
  done

lemma inj_on_params_generateAllCombinations:
  "inj_on params (set (generateAllCombinations R))"
proof (rule inj_onI)
  fix c c' :: combination
  assume "c \<in> set (generateAllCombinations R)" "c' \<in> set (generateAllCombinations R)"
    and eq: "params c = params c'"
  then have "comb_id c = generateCombinationId (params c)"
    "comb_id c' = generateCombinationId (params c')"
    by (simp_all add: set_generateAllCombinations)
  with eq show "c = c'"
    by (cases c; cases c') simp
qed

lemma distinct_params_generateAllCombinations:
  assumes "distinct (r_minAge R)" "distinct (r_maxAge R)" "distinct (r_excludeMarried R)"
    "distinct (r_race R)" "distinct (r_minHeight R)" "distinct (r_excludeObese R)"
    "distinct (r_minIncome R)"
  shows "distinct (map params (generateAllCombinations R))"
  using distinct_generateAllCombinations [OF assms] inj_on_params_generateAllCombinations
  by (simp add: distinct_map)

lemma length_concat_map_skip:
  "(\<And>x. x \<in> set xs \<Longrightarrow> \<not> Q x \<Longrightarrow> length (f x) = n)
   \<Longrightarrow> length (concat (map (\<lambda>x. if Q x then [] else f x) xs)) = length (filter (\<lambda>x. \<not> Q x) xs) * n"
  by (induction xs) auto

lemma length_inner:
  "length (concat (map (\<lambda>m. concat (map (\<lambda>r. concat (map (\<lambda>h. concat (map (\<lambda>ob.
      map (\<lambda>i. g m r h ob i) I) Ob)) H)) Rc)) M))
   = length M * (length Rc * (length H * (length Ob * length I)))"
  by (simp add: length_concat_map_const [where n = "length I"]
        length_concat_map_const [where n = "length Ob * length I"]
        length_concat_map_const [where n = "length H * (length Ob * length I)"]
        length_concat_map_const [where n = "length Rc * (length H * (length Ob * length I))"])

lemma length_filter_product:
  "length (filter (\<lambda>(a, b). a < b) (List.product (xs::int list) ys))
   = sum_list (map (\<lambda>a. length (filter (\<lambda>b. \<not> a \<ge> b) ys)) xs)"
  by (induction xs) (auto simp: filter_map comp_def not_le)

lemma length_concat_map_sum:
  "(\<And>x. x \<in> set xs \<Longrightarrow> length (f x) = g x)
   \<Longrightarrow> length (concat (map f xs)) = sum_list (map g xs)"
  by (induction xs) auto

lemma length_generateAllCombinations:
  "length (generateAllCombinations R) =
     length (valid_age_pairs R) * (length (r_excludeMarried R) * (length (r_race R)
       * (length (r_minHeight R) * (length (r_excludeObese R) * length (r_minIncome R)))))"
  (is "_ = _ * ?N")
proof -
  have lvl2: "length (concat (map (\<lambda>b. if a \<ge> b then [] else
      concat (map (\<lambda>m. concat (map (\<lambda>r. concat (map (\<lambda>h. concat (map (\<lambda>ob.
        map (\<lambda>i. mk_combination a b m r h ob i) (r_minIncome R)) (r_excludeObese R)))
        (r_minHeight R))) (r_race R))) (r_excludeMarried R))) (r_maxAge R)))
     = length (filter (\<lambda>b. \<not> a \<ge> b) (r_maxAge R)) * ?N" for a
    by (rule length_concat_map_skip) (rule length_inner)
  have "length (generateAllCombinations R)
      = sum_list (map (\<lambda>a. length (filter (\<lambda>b. \<not> a \<ge> b) (r_maxAge R)) * ?N) (r_minAge R))"
    unfolding generateAllCombinations_def
    by (rule length_concat_map_sum) (rule lvl2)
  then show ?thesis
    unfolding valid_age_pairs_def length_filter_product
    by (simp only: sum_list_mult_const)
qed

lemma count_list_distinct: "distinct xs \<Longrightarrow> x \<in> set xs \<Longrightarrow> count_list xs x = 1"
  by (induction xs) auto

lemma distinct_parameterRanges:
  "distinct (r_minAge parameterRanges)" "distinct (r_maxAge parameterRanges)"
  "distinct (r_excludeMarried parameterRanges)" "distinct (r_race parameterRanges)"
  "distinct (r_minHeight parameterRanges)" "distinct (r_excludeObese parameterRanges)"
  "distinct (r_minIncome parameterRanges)"
  by (simp_all add: parameterRanges_def)

lemma length_valid_age_pairs_configured: "length (valid_age_pairs parameterRanges) = 101"
  by (simp add: valid_age_pairs_def parameterRanges_def)

lemma digit_char_is_digit: "d < 10 \<Longrightarrow> digit_char d \<in> set ''0123456789''"
  unfolding digit_char_def by (rule nth_mem) simp

lemma digit_char_inj: "d < 10 \<Longrightarrow> d' < 10 \<Longrightarrow> digit_char d = digit_char d' \<Longrightarrow> d = d'"
  unfolding digit_char_def by (simp add: nth_eq_iff_index_eq)

lemma string_of_nat_small: "n < 10 \<Longrightarrow> string_of_nat n = [digit_char n]"
  by (subst string_of_nat.simps) simp

lemma string_of_nat_large:
  "\<not> n < 10 \<Longrightarrow> string_of_nat n = string_of_nat (n div 10) @ [digit_char (n mod 10)]"
  by (subst string_of_nat.simps) simp

lemma string_of_nat_digits: "set (string_of_nat n) \<subseteq> set ''0123456789''"
proof (induction n rule: string_of_nat.induct)
  case (1 n)
  show ?case
  proof (cases "n < 10")
    case True
    then show ?thesis
      using digit_char_is_digit [of n] by (simp add: string_of_nat_small)
  next
    case False
    have "n mod 10 < 10" by simp
    with False 1 digit_char_is_digit [of "n mod 10"] show ?thesis
      by (simp add: string_of_nat_large)
  qed
qed

lemma string_of_nat_nonempty: "string_of_nat n \<noteq> []"
  by (subst string_of_nat.simps) simp

lemma string_of_nat_length_large: "\<not> n < 10 \<Longrightarrow> length (string_of_nat n) \<ge> 2"
  using string_of_nat_nonempty [of "n div 10"]
  by (simp add: string_of_nat_large Suc_le_eq)

lemma string_of_nat_inj: "string_of_nat n = string_of_nat m \<Longrightarrow> n = m"
proof (induction n arbitrary: m rule: string_of_nat.induct)
  case (1 n)
  note eq = \<open>string_of_nat n = string_of_nat m\<close>
  show ?case
  proof (cases "n < 10")
    case small: True
    have len: "length (string_of_nat m) = 1"
      unfolding eq [symmetric] by (simp add: string_of_nat_small small)
    have msmall: "m < 10"
    proof (rule ccontr)
      assume "\<not> m < 10"
      from string_of_nat_length_large [OF this] len show False by simp
    qed
    from eq have "digit_char n = digit_char m"
      unfolding string_of_nat_small [OF small] string_of_nat_small [OF msmall] by simp
    with small msmall show ?thesis by (rule digit_char_inj)
  next
    case large: False
    have mlarge: "\<not> m < 10"
    proof
      assume "m < 10"
      then have "length (string_of_nat m) = 1" by (simp add: string_of_nat_small)
      with string_of_nat_length_large [OF large] show False unfolding eq by simp
    qed
    from eq have "string_of_nat (n div 10) @ [digit_char (n mod 10)]
        = string_of_nat (m div 10) @ [digit_char (m mod 10)]"
      unfolding string_of_nat_large [OF large] string_of_nat_large [OF mlarge] .
    then have e: "string_of_nat (n div 10) = string_of_nat (m div 10)"
      and d: "digit_char (n mod 10) = digit_char (m mod 10)"
      by simp_all
    from "1.IH" [OF large e] have "n div 10 = m div 10" .
    moreover have "n mod 10 = m mod 10"
      by (rule digit_char_inj [OF _ _ d]) simp_all
    ultimately show ?thesis
      by (metis div_mult_mod_eq)
  qed
qed

lemma string_of_int_nonneg: "0 \<le> i \<Longrightarrow> string_of_int i = string_of_nat (nat i)"
  by (simp add: string_of_int_def)

lemma string_of_int_no_dash: "0 \<le> i \<Longrightarrow> CHR ''-'' \<notin> set (string_of_int i)"
  using string_of_nat_digits [of "nat i"] by (auto simp: string_of_int_nonneg)

lemma string_of_int_inj: "0 \<le> i \<Longrightarrow> 0 \<le> j \<Longrightarrow> string_of_int i = string_of_int j \<Longrightarrow> i = j"
  using string_of_nat_inj [of "nat i" "nat j"] by (simp add: string_of_int_nonneg)

lemma string_of_bool_no_dash: "CHR ''-'' \<notin> set (string_of_bool b)"
  by (simp add: string_of_bool_def)

lemma string_of_bool_inj: "string_of_bool a = string_of_bool b \<Longrightarrow> a = b"
  by (simp add: string_of_bool_def split: if_splits)

lemma split_at_dash:
  "CHR ''-'' \<notin> set s \<Longrightarrow> CHR ''-'' \<notin> set t \<Longrightarrow> s @ CHR ''-'' # r = t @ CHR ''-'' # r'
   \<Longrightarrow> s = t \<and> r = r'"
proof (induction s arbitrary: t)
  case Nil
  then show ?case by (cases t) auto
next
  case (Cons c s)
  then show ?case by (cases t) auto
qed

lemma generateCombinationId_inj:
  assumes p: "0 \<le> p_minAge p" "0 \<le> p_maxAge p" "0 \<le> p_race p" "0 \<le> p_minHeight p"
      "0 \<le> p_minIncome p"
    and q: "0 \<le> p_minAge q" "0 \<le> p_maxAge q" "0 \<le> p_race q" "0 \<le> p_minHeight q"
      "0 \<le> p_minIncome q"
    and eq: "generateCombinationId p = generateCombinationId q"
  shows "p = (q::combo_params)"
proof -
  note nd = string_of_int_no_dash string_of_bool_no_dash
  from eq have e0: "string_of_int (p_minAge p) @ CHR ''-'' # (string_of_int (p_maxAge p) @ CHR ''-'' #
      (string_of_bool (p_excludeMarried p) @ CHR ''-'' # (string_of_int (p_race p) @ CHR ''-'' #
      (string_of_int (p_minHeight p) @ CHR ''-'' # (string_of_bool (p_excludeObese p) @ CHR ''-'' #
       string_of_int (p_minIncome p))))))
    = string_of_int (p_minAge q) @ CHR ''-'' # (string_of_int (p_maxAge q) @ CHR ''-'' #
      (string_of_bool (p_excludeMarried q) @ CHR ''-'' # (string_of_int (p_race q) @ CHR ''-'' #
      (string_of_int (p_minHeight q) @ CHR ''-'' # (string_of_bool (p_excludeObese q) @ CHR ''-'' #
       string_of_int (p_minIncome q))))))"
    by (simp add: generateCombinationId_def)
  from split_at_dash [OF nd(1) nd(1) e0] p q
  have f1: "string_of_int (p_minAge p) = string_of_int (p_minAge q)"
    and e1: "string_of_int (p_maxAge p) @ CHR ''-'' #
      (string_of_bool (p_excludeMarried p) @ CHR ''-'' # (string_of_int (p_race p) @ CHR ''-'' #
      (string_of_int (p_minHeight p) @ CHR ''-'' # (string_of_bool (p_excludeObese p) @ CHR ''-'' #
       string_of_int (p_minIncome p)))))
    = string_of_int (p_maxAge q) @ CHR ''-'' #
      (string_of_bool (p_excludeMarried q) @ CHR ''-'' # (string_of_int (p_race q) @ CHR ''-'' #
      (string_of_int (p_minHeight q) @ CHR ''-'' # (string_of_bool (p_excludeObese q) @ CHR ''-'' #
       string_of_int (p_minIncome q)))))"
    by simp_all
  from split_at_dash [OF nd(1) nd(1) e1] p q
  have f2: "string_of_int (p_maxAge p) = string_of_int (p_maxAge q)"
    and e2: "string_of_bool (p_excludeMarried p) @ CHR ''-'' # (string_of_int (p_race p) @ CHR ''-'' #
      (string_of_int (p_minHeight p) @ CHR ''-'' # (string_of_bool (p_excludeObese p) @ CHR ''-'' #
       string_of_int (p_minIncome p))))
    = string_of_bool (p_excludeMarried q) @ CHR ''-'' # (string_of_int (p_race q) @ CHR ''-'' #
      (string_of_int (p_minHeight q) @ CHR ''-'' # (string_of_bool (p_excludeObese q) @ CHR ''-'' #
       string_of_int (p_minIncome q))))"
    by simp_all
  from split_at_dash [OF nd(2) nd(2) e2]
  have f3: "string_of_bool (p_excludeMarried p) = string_of_bool (p_excludeMarried q)"
    and e3: "string_of_int (p_race p) @ CHR ''-'' #
      (string_of_int (p_minHeight p) @ CHR ''-'' # (string_of_bool (p_excludeObese p) @ CHR ''-'' #
       string_of_int (p_minIncome p)))
    = string_of_int (p_race q) @ CHR ''-'' #
      (string_of_int (p_minHeight q) @ CHR ''-'' # (string_of_bool (p_excludeObese q) @ CHR ''-'' #
       string_of_int (p_minIncome q)))"
    by simp_all
  from split_at_dash [OF nd(1) nd(1) e3] p q
  have f4: "string_of_int (p_race p) = string_of_int (p_race q)"
    and e4: "string_of_int (p_minHeight p) @ CHR ''-'' # (string_of_bool (p_excludeObese p) @ CHR ''-'' #
       string_of_int (p_minIncome p))
    = string_of_int (p_minHeight q) @ CHR ''-'' # (string_of_bool (p_excludeObese q) @ CHR ''-'' #
       string_of_int (p_minIncome q))"
    by simp_all
  from split_at_dash [OF nd(1) nd(1) e4] p q
  have f5: "string_of_int (p_minHeight p) = string_of_int (p_minHeight q)"
    and e5: "string_of_bool (p_excludeObese p) @ CHR ''-'' # string_of_int (p_minIncome p)
    = string_of_bool (p_excludeObese q) @ CHR ''-'' # string_of_int (p_minIncome q)"
    by simp_all
  from split_at_dash [OF nd(2) nd(2) e5]
  have f6: "string_of_bool (p_excludeObese p) = string_of_bool (p_excludeObese q)"
    and f7: "string_of_int (p_minIncome p) = string_of_int (p_minIncome q)"
    by simp_all
  from f1 f2 f4 f5 f7 p q
  have "p_minAge p = p_minAge q" "p_maxAge p = p_maxAge q" "p_race p = p_race q"
    "p_minHeight p = p_minHeight q" "p_minIncome p = p_minIncome q"
    by (simp_all add: string_of_int_inj)
  moreover from f3 f6 have "p_excludeMarried p = p_excludeMarried q"
    "p_excludeObese p = p_excludeObese q"
    by (simp_all add: string_of_bool_inj)
  ultimately show ?thesis by simp
qed

lemma parameterRanges_nonneg:
  "\<forall>x \<in> set (r_minAge parameterRanges). 0 \<le> x" "\<forall>x \<in> set (r_maxAge parameterRanges). 0 \<le> x"
  "\<forall>x \<in> set (r_race parameterRanges). 0 \<le> x" "\<forall>x \<in> set (r_minHeight parameterRanges). 0 \<le> x"
  "\<forall>x \<in> set (r_minIncome parameterRanges). 0 \<le> x"
  by (simp_all add: parameterRanges_def)

lemma valid_tuple_configured_nonneg:
  assumes "valid_tuple parameterRanges p"
  shows "0 \<le> p_minAge p" "0 \<le> p_maxAge p" "0 \<le> p_race p" "0 \<le> p_minHeight p"
    "0 \<le> p_minIncome p"
  using assms parameterRanges_nonneg unfolding valid_tuple_def by blast+

lemma valid_tuple_testParams: "valid_tuple parameterRanges testParams"
  by (simp add: valid_tuple_def parameterRanges_def testParams_def)

lemma grid_sizes:
  "length (r_minAge parameterRanges) = 12" "length (r_maxAge parameterRanges) = 13"
  "length (r_excludeMarried parameterRanges) = 2" "length (r_race parameterRanges) = 4"
  "length (r_minHeight parameterRanges) = 10" "length (r_excludeObese parameterRanges) = 2"
  "length (r_minIncome parameterRanges) = 9"
  by (simp_all add: parameterRanges_def)

lemma params_in_generateAllCombinations:
  "p \<in> set (map params (generateAllCombinations R)) \<longleftrightarrow> valid_tuple R p"
proof
  assume "p \<in> set (map params (generateAllCombinations R))"
  then show "valid_tuple R p"
    by (auto simp: set_generateAllCombinations)
next
  assume v: "valid_tuple R p"
  have "\<lparr> comb_id = generateCombinationId p, params = p \<rparr> \<in> set (generateAllCombinations R)"
    using v by (simp add: set_generateAllCombinations)
  then have "params \<lparr> comb_id = generateCombinationId p, params = p \<rparr>
      \<in> params ` set (generateAllCombinations R)"
    by (rule imageI)
  then show "p \<in> set (map params (generateAllCombinations R))"
    by simp
qed

text \<open>
  C6.  The space generated from the configured grids has no combination with
  \<open>minAge >= maxAge\<close>; each of its combinations is a tuple of the cartesian product of the
  seven grids; every such tuple that passes the age filter occurs exactly once; and the
  number of combinations is the number of valid (minAge, maxAge) pairs, 101, times
  2 * 4 * 10 * 2 * 9, the sizes of the five remaining grids.
\<close>

theorem generateAllCombinations_space:
  "(\<forall>c \<in> set (generateAllCombinations parameterRanges).
      \<not> p_minAge (params c) \<ge> p_maxAge (params c) \<and> valid_tuple parameterRanges (params c))
   \<and> (\<forall>p. valid_tuple parameterRanges p \<longrightarrow>
          count_list (map params (generateAllCombinations parameterRanges)) p = 1)
   \<and> map length [r_minAge parameterRanges, r_maxAge parameterRanges, r_race parameterRanges,
         r_minHeight parameterRanges, r_minIncome parameterRanges] = [12, 13, 4, 10, 9]
   \<and> map length [r_excludeMarried parameterRanges, r_excludeObese parameterRanges] = [2, 2]
   \<and> length (generateAllCombinations parameterRanges)
       = length (valid_age_pairs parameterRanges) * (2 * 4 * 10 * 2 * 9)
   \<and> length (valid_age_pairs parameterRanges) = 101"
proof (intro conjI ballI allI impI)
  fix c assume "c \<in> set (generateAllCombinations parameterRanges)"
  then have v: "valid_tuple parameterRanges (params c)"
    by (simp add: set_generateAllCombinations)
  then show "\<not> p_minAge (params c) \<ge> p_maxAge (params c)"
    by (simp add: valid_tuple_def)
  from v show "valid_tuple parameterRanges (params c)" .
next
  fix p assume "valid_tuple parameterRanges p"
  then have "p \<in> set (map params (generateAllCombinations parameterRanges))"
    by (simp only: params_in_generateAllCombinations)
  with distinct_params_generateAllCombinations [OF distinct_parameterRanges]
  show "count_list (map params (generateAllCombinations parameterRanges)) p = 1"
    by (rule count_list_distinct)
next
  show "length (generateAllCombinations parameterRanges)
      = length (valid_age_pairs parameterRanges) * (2 * 4 * 10 * 2 * 9)"
    by (simp only: length_generateAllCombinations grid_sizes)
next
  show "length (valid_age_pairs parameterRanges) = 101"
    by (rule length_valid_age_pairs_configured)
qed (simp_all add: grid_sizes)

theorem generateAllCombinations_space_witness:
  "mk_combination 25 35 True 0 170 True 100000 \<in> set (generateAllCombinations parameterRanges)
   \<and> \<not> p_minAge (params (mk_combination 25 35 True 0 170 True 100000))
         \<ge> p_maxAge (params (mk_combination 25 35 True 0 170 True 100000))
   \<and> valid_tuple parameterRanges testParams
   \<and> count_list (map params (generateAllCombinations parameterRanges)) testParams = 1"
proof -
  have m: "mk_combination 25 35 True 0 170 True 100000
      \<in> set (generateAllCombinations parameterRanges)"
    using valid_tuple_testParams by (simp add: set_generateAllCombinations testParams_def)
  from generateAllCombinations_space m valid_tuple_testParams show ?thesis
    by blast
qed

text \<open>
  C10.  Over the space enumerated from the configured grids the combination id is
  injective: two combinations that differ in at least one of the seven parameter values
  have different ids, and so do any two different valid tuples.
\<close>

theorem generateCombinationId_injective_on_space:
  "(\<forall>c \<in> set (generateAllCombinations parameterRanges).
      \<forall>c' \<in> set (generateAllCombinations parameterRanges).
        params c \<noteq> params c' \<longrightarrow> comb_id c \<noteq> comb_id c')
   \<and> (\<forall>p q. valid_tuple parameterRanges p \<and> valid_tuple parameterRanges q \<and> p \<noteq> q
          \<longrightarrow> generateCombinationId p \<noteq> generateCombinationId q)"
proof -
  have inj: "generateCombinationId p \<noteq> generateCombinationId q"
    if "valid_tuple parameterRanges p" "valid_tuple parameterRanges q" "p \<noteq> q" for p q
    using generateCombinationId_inj [OF valid_tuple_configured_nonneg [OF that(1)]
        valid_tuple_configured_nonneg [OF that(2)]] that(3)
    by blast
  have "comb_id c \<noteq> comb_id c'"
    if "c \<in> set (generateAllCombinations parameterRanges)"
      "c' \<in> set (generateAllCombinations parameterRanges)" "params c \<noteq> params c'" for c c'
    using that inj [of "params c" "params c'"] by (simp add: set_generateAllCombinations)
  with inj show ?thesis by blast
qed

theorem generateCombinationId_injective_on_space_witness:
  "mk_combination 25 35 True 0 170 True 100000 \<in> set (generateAllCombinations parameterRanges)
   \<and> mk_combination 25 35 True 0 170 True 0 \<in> set (generateAllCombinations parameterRanges)
   \<and> params (mk_combination 25 35 True 0 170 True 100000)
       \<noteq> params (mk_combination 25 35 True 0 170 True 0)
   \<and> comb_id (mk_combination 25 35 True 0 170 True 100000)
       \<noteq> comb_id (mk_combination 25 35 True 0 170 True 0)"
proof -
  have m: "mk_combination 25 35 True 0 170 True 100000
      \<in> set (generateAllCombinations parameterRanges)"
    "mk_combination 25 35 True 0 170 True 0 \<in> set (generateAllCombinations parameterRanges)"
    by (simp_all add: set_generateAllCombinations valid_tuple_def parameterRanges_def)
  have d: "params (mk_combination 25 35 True 0 170 True 100000)
      \<noteq> params (mk_combination 25 35 True 0 170 True 0)"
    by simp
  from generateCombinationId_injective_on_space m d show ?thesis
    by blast
qed

lemma logError_frame:
  "progressFile (logError E c msg d) = progressFile d"
  "resultsFile (logError E c msg d) = resultsFile d"
  by (simp_all add: logError_def writeFile_def Let_def)

lemma logError_writable:
  "can_write E ErrorLogFile \<Longrightarrow>
   errorLogFile (logError E c msg d) =
     Some (loadErrors d @ [\<lparr> err_timestamp = clock E, err_combination = c, err_message = msg \<rparr>])"
  by (simp add: logError_def writeFile_def Let_def)


lemma scrapeWithRetry_frame:
  "existingResults (snd (scrapeWithRetry E c attempt st)) = existingResults st
   \<and> processedCount (snd (scrapeWithRetry E c attempt st)) = processedCount st
   \<and> successCount (snd (scrapeWithRetry E c attempt st)) = successCount st
   \<and> errorCount (snd (scrapeWithRetry E c attempt st)) = errorCount st
   \<and> progressFile (disk (snd (scrapeWithRetry E c attempt st))) = progressFile (disk st)
   \<and> resultsFile (disk (snd (scrapeWithRetry E c attempt st))) = resultsFile (disk st)"
proof (induction E c attempt st rule: scrapeWithRetry.induct)
  case (1 E c attempt st)
  show ?case
  proof (cases "scrape_attempt E (length (fetches st)) c")
    case (Inr r)
    then show ?thesis
      by (simp add: scrapeWithRetry.simps [of E c attempt st])
  next
    case (Inl msg)
    show ?thesis
    proof (cases "attempt < retryAttempts")
      case True
      with Inl "1.IH" [OF refl Inl True] show ?thesis
        by (simp add: scrapeWithRetry.simps [of E c attempt st])
    next
      case False
      with Inl show ?thesis
        by (simp add: scrapeWithRetry.simps [of E c attempt st] logError_frame)
    qed
  qed
qed

lemma scrapeWithRetry_fetches:
  "\<exists>new. fetches (snd (scrapeWithRetry E c attempt st)) = fetches st @ new
         \<and> new \<noteq> [] \<and> length new \<le> Suc (retryAttempts - attempt)
         \<and> (\<forall>f \<in> set new. fst f = comb_id c)"
proof (induction E c attempt st rule: scrapeWithRetry.induct)
  case (1 E c attempt st)
  show ?case
  proof (cases "scrape_attempt E (length (fetches st)) c")
    case (Inr r)
    then show ?thesis
      by (simp add: scrapeWithRetry.simps [of E c attempt st])
  next
    case (Inl msg)
    show ?thesis
    proof (cases "attempt < retryAttempts")
      case True
      from "1.IH" [OF refl Inl True] obtain new where
        n: "fetches (snd (scrapeWithRetry E c (attempt + 1)
               (st\<lparr>fetches := fetches st @ [(comb_id c, attempt)]\<rparr>)))
            = (fetches st @ [(comb_id c, attempt)]) @ new"
        and l: "length new \<le> Suc (retryAttempts - (attempt + 1))"
        and a: "\<forall>f \<in> set new. fst f = comb_id c"
        by auto
      have "fetches (snd (scrapeWithRetry E c attempt st))
          = fetches st @ ((comb_id c, attempt) # new)"
        using Inl True n by (simp add: scrapeWithRetry.simps [of E c attempt st])
      moreover have "length ((comb_id c, attempt) # new) \<le> Suc (retryAttempts - attempt)"
        using l True by simp
      moreover have "\<forall>f \<in> set ((comb_id c, attempt) # new). fst f = comb_id c"
        using a by simp
      ultimately show ?thesis by blast
    next
      case False
      with Inl show ?thesis
        by (simp add: scrapeWithRetry.simps [of E c attempt st])
    qed
  qed
qed

lemma scrapeWithRetry_all_fail:
  assumes "\<forall>n. isl (scrape_attempt E n c)" and "attempt \<le> retryAttempts"
  shows "\<exists>msg. scrapeWithRetry E c attempt st =
           (Inl msg, st\<lparr>fetches := fetches st @ map (Pair (comb_id c)) [attempt..<Suc retryAttempts],
                         disk := logError E c msg (disk st)\<rparr>)"
  using assms
proof (induction E c attempt st rule: scrapeWithRetry.induct)
  case (1 E c attempt st)
  from "1.prems"(1) obtain msg where m: "scrape_attempt E (length (fetches st)) c = Inl msg"
    by (metis isl_def)
  show ?case
  proof (cases "attempt < retryAttempts")
    case True
    from "1.IH" [OF refl m True "1.prems"(1)] True obtain msg' where
      "scrapeWithRetry E c (attempt + 1) (st\<lparr>fetches := fetches st @ [(comb_id c, attempt)]\<rparr>)
       = (Inl msg', st\<lparr>fetches := (fetches st @ [(comb_id c, attempt)])
                           @ map (Pair (comb_id c)) [attempt + 1..<Suc retryAttempts],
                       disk := logError E c msg' (disk st)\<rparr>)"
      by auto
    moreover have "[attempt..<Suc retryAttempts] = attempt # [attempt + 1..<Suc retryAttempts]"
      using True by (simp add: upt_conv_Cons)
    ultimately show ?thesis
      using m True by (simp add: scrapeWithRetry.simps [of E c attempt st])
  next
    case False
    with "1.prems"(2) have "attempt = retryAttempts" by simp
    then have "[attempt..<Suc retryAttempts] = [attempt]" by simp
    with m False show ?thesis
      by (simp add: scrapeWithRetry.simps [of E c attempt st])
  qed
qed

lemma retry_attempt_numbers: "[1..<Suc retryAttempts] = [1, 2, 3]"
  by (simp add: retryAttempts_def upt_conv_Cons)

lemma failing_env_fails: "\<forall>n. isl (scrape_attempt failing_env n c)"
  by (simp add: scrape_attempt_def failing_env_def)

text \<open>
  C5.  When every extraction attempt for a combination fails (the page load throws or the
  extracted data has none of the three result fields), \<open>scrapeWithRetry\<close> makes exactly
  \<open>retryAttempts = 3\<close> page loads, numbered 1, 2, 3, and returns the failure; the results
  store and the results and progress files are unchanged; and when the error log can be
  written, exactly one record, for this combination and the returned message, is
  appended to it.
\<close>

theorem scrapeWithRetry_exhausts_attempts:
  assumes "\<forall>n. isl (scrape_attempt E n c)"
  shows "isl (fst (scrapeWithRetry E c 1 st))
    \<and> fetches (snd (scrapeWithRetry E c 1 st))
        = fetches st @ [(comb_id c, 1), (comb_id c, 2), (comb_id c, 3)]
    \<and> length (fetches (snd (scrapeWithRetry E c 1 st))) = length (fetches st) + retryAttempts
    \<and> existingResults (snd (scrapeWithRetry E c 1 st)) = existingResults st
    \<and> resultsFile (disk (snd (scrapeWithRetry E c 1 st))) = resultsFile (disk st)
    \<and> progressFile (disk (snd (scrapeWithRetry E c 1 st))) = progressFile (disk st)
    \<and> (can_write E ErrorLogFile \<longrightarrow>
         errorLogFile (disk (snd (scrapeWithRetry E c 1 st)))
           = Some (loadErrors (disk st)
                   @ [\<lparr> err_timestamp = clock E, err_combination = c,
                        err_message = projl (fst (scrapeWithRetry E c 1 st)) \<rparr>]))"
proof -
  have "1 \<le> retryAttempts" by (simp add: retryAttempts_def)
  from scrapeWithRetry_all_fail [OF assms this, of st] obtain msg where
    r: "scrapeWithRetry E c 1 st =
          (Inl msg, st\<lparr>fetches := fetches st @ map (Pair (comb_id c)) [1..<Suc retryAttempts],
                        disk := logError E c msg (disk st)\<rparr>)"
    by blast
  show ?thesis
    unfolding r retry_attempt_numbers
    by (simp add: logError_frame logError_writable retryAttempts_def)
qed

theorem scrapeWithRetry_exhausts_attempts_witness:
  "(\<forall>n. isl (scrape_attempt failing_env n test_combination))
   \<and> can_write failing_env ErrorLogFile
   \<and> isl (fst (scrapeWithRetry failing_env test_combination 1 fresh_state))
   \<and> fetches (snd (scrapeWithRetry failing_env test_combination 1 fresh_state))
       = [(comb_id test_combination, 1), (comb_id test_combination, 2),
          (comb_id test_combination, 3)]
   \<and> existingResults (snd (scrapeWithRetry failing_env test_combination 1 fresh_state))
       = Map.empty
   \<and> map err_combination
        (loadErrors (disk (snd (scrapeWithRetry failing_env test_combination 1 fresh_state))))
       = [test_combination]"
proof -
  have w: "can_write failing_env ErrorLogFile"
    by (simp add: failing_env_def)
  from scrapeWithRetry_exhausts_attempts [OF failing_env_fails, of test_combination fresh_state] w
  show ?thesis
    by (simp add: failing_env_fails fresh_state_def empty_disk_def loadErrors_def)
qed

lemma store_has_upd [simp]: "store_has (m(k \<mapsto> v)) k"
  by (simp add: store_has_def)

lemma store_has_upd_iff: "store_has (m(k' \<mapsto> v)) k \<longleftrightarrow> k = k' \<or> store_has m k"
  by (auto simp: store_has_def)

lemma store_has_own: "m k \<noteq> None \<Longrightarrow> store_has m k"
  by (simp add: store_has_def)

lemma generateCombinationId_not_inherited:
  "generateCombinationId p \<notin> set object_prototype_names"
proof -
  have "CHR ''-'' \<in> set (generateCombinationId p)"
    by (simp add: generateCombinationId_def)
  moreover have "\<forall>n \<in> set object_prototype_names. CHR ''-'' \<notin> set n"
    by (simp add: object_prototype_names_def)
  ultimately show ?thesis by blast
qed

lemma store_has_empty_generated [simp]: "\<not> store_has Map.empty (generateCombinationId p)"
  by (simp add: store_has_def generateCombinationId_not_inherited)

lemma store_has_empty_test [simp]: "\<not> store_has Map.empty (comb_id test_combination)"
  by (simp add: test_combination_def)

lemma fetched_only_refl: "fetched_only st ids st"
  by (simp add: fetched_only_def)

lemma fetched_only_trans:
  assumes "fetched_only st A st1" and "fetched_only st1 B st2"
  shows "fetched_only st (A \<union> B) st2"
proof -
  from assms(1) obtain n1 where n1: "fetches st1 = fetches st @ n1"
    "\<forall>f \<in> set n1. fst f \<in> A \<and> \<not> store_has (existingResults st) (fst f)"
    and m1: "\<forall>k. store_has (existingResults st) k \<longrightarrow> store_has (existingResults st1) k"
    unfolding fetched_only_def by blast
  from assms(2) obtain n2 where n2: "fetches st2 = fetches st1 @ n2"
    "\<forall>f \<in> set n2. fst f \<in> B \<and> \<not> store_has (existingResults st1) (fst f)"
    and m2: "\<forall>k. store_has (existingResults st1) k \<longrightarrow> store_has (existingResults st2) k"
    unfolding fetched_only_def by blast
  have "fetches st2 = fetches st @ (n1 @ n2)"
    using n1(1) n2(1) by simp
  moreover have "\<not> store_has (existingResults st) (fst f)" if "f \<in> set n2" for f :: "string \<times> nat"
  proof
    assume "store_has (existingResults st) (fst f)"
    with m1 have "store_has (existingResults st1) (fst f)" by simp
    moreover from n2(2) that have "\<not> store_has (existingResults st1) (fst f)" by simp
    ultimately show False by simp
  qed
  then have "\<forall>f \<in> set (n1 @ n2). fst f \<in> A \<union> B \<and> \<not> store_has (existingResults st) (fst f)"
    using n1(2) n2(2) by auto
  moreover have "\<forall>k. store_has (existingResults st) k \<longrightarrow> store_has (existingResults st2) k"
    using m1 m2 by blast
  ultimately show ?thesis
    unfolding fetched_only_def by blast
qed

lemma fetched_only_mono: "fetched_only st A st' \<Longrightarrow> A \<subseteq> B \<Longrightarrow> fetched_only st B st'"
  unfolding fetched_only_def by blast

lemma processItem_cached:
  "store_has (existingResults st) (comb_id c) \<Longrightarrow>
   processItem E tot start idx c st =
     (None, st\<lparr>processedCount := processedCount st + 1, successCount := successCount st + 1\<rparr>)"
  by (simp add: processItem_def)

lemma processItem_fetched_only:
  "fetched_only st {comb_id c} (snd (processItem E tot start idx c st))"
proof (cases "\<not> store_has (existingResults st) (comb_id c)")
  case False
  then show ?thesis
    by (simp add: processItem_cached fetched_only_def)
next
  case True
  obtain r st1 where s: "scrapeWithRetry E c 1 st = (r, st1)"
    by (cases "scrapeWithRetry E c 1 st")
  from scrapeWithRetry_frame [of E c 1 st] s
  have e: "existingResults st1 = existingResults st" by simp
  from scrapeWithRetry_fetches [of E c 1 st] s obtain new where
    n: "fetches st1 = fetches st @ new" "\<forall>f \<in> set new. fst f = comb_id c"
    by auto
  have f: "fetches (snd (processItem E tot start idx c st)) = fetches st1"
    using True s
    by (simp add: processItem_def Let_def saveResults_def saveProgress_def writeFile_def
        split: sum.splits)
  have m: "\<forall>k. store_has (existingResults st) k \<longrightarrow>
      store_has (existingResults (snd (processItem E tot start idx c st))) k"
    using True s e
    by (simp add: processItem_def Let_def saveResults_def saveProgress_def writeFile_def
        store_has_upd_iff split: sum.splits)
  show ?thesis
    unfolding fetched_only_def using f n m True by auto
qed


lemma processItem_progress_unwritable:
  assumes "\<not> store_has (existingResults st) (comb_id c)" and "\<not> can_write E ProgressFile"
  shows "fst (processItem E tot start idx c st) = Some (IOError ProgressFile)"
  using assms
  by (cases "scrapeWithRetry E c 1 st")
     (simp add: processItem_def Let_def saveProgress_def writeFile_def split: sum.splits)


lemma processItem_persisted_index:
  "persisted_index (disk (snd (processItem E tot start idx c st))) = persisted_index (disk st)
   \<or> persisted_index (disk (snd (processItem E tot start idx c st))) = idx"
proof (cases "\<not> store_has (existingResults st) (comb_id c)")
  case False
  then show ?thesis by (simp add: processItem_cached)
next
  case True
  obtain r st1 where s: "scrapeWithRetry E c 1 st = (r, st1)"
    by (cases "scrapeWithRetry E c 1 st")
  from scrapeWithRetry_frame [of E c 1 st] s
  have "progressFile (disk st1) = progressFile (disk st)" by simp
  with True s show ?thesis
    by (simp add: processItem_def Let_def saveResults_def saveProgress_def writeFile_def
        persisted_index_def split: sum.splits)
qed


lemma processBatch_fetched_only:
  "fetched_only st (comb_id ` set batch) (snd (processBatch E tot start i batch j st))"
proof (induction batch arbitrary: j st)
  case Nil
  show ?case by (simp add: fetched_only_refl)
next
  case (Cons c cs)
  obtain err st' where p: "processItem E tot start (i + j + 1) c st = (err, st')"
    by (cases "processItem E tot start (i + j + 1) c st")
  from processItem_fetched_only [of st c E tot start "i + j + 1"] p
  have one: "fetched_only st {comb_id c} st'" by simp
  show ?case
  proof (cases err)
    case (Some e)
    with p one show ?thesis
      by (auto intro: fetched_only_mono)
  next
    case None
    from fetched_only_trans [OF one Cons.IH [of st' "j + 1"]]
    have "fetched_only st ({comb_id c} \<union> comb_id ` set cs)
            (snd (processBatch E tot start i cs (j + 1) st'))" .
    with p None show ?thesis by simp
  qed
qed


lemma processBatch_persisted_index:
  "persisted_index (disk st) \<le> i + j \<Longrightarrow>
   persisted_index (disk st) \<le> persisted_index (disk (snd (processBatch E tot start i batch j st)))
   \<and> persisted_index (disk (snd (processBatch E tot start i batch j st))) \<le> i + j + length batch"
proof (induction batch arbitrary: j st)
  case Nil
  then show ?case by simp
next
  case (Cons c cs)
  obtain e st' where p: "processItem E tot start (i + j + 1) c st = (e, st')"
    by (cases "processItem E tot start (i + j + 1) c st")
  from processItem_persisted_index [of E tot start "i + j + 1" c st] p
  have d: "persisted_index (disk st') = persisted_index (disk st)
      \<or> persisted_index (disk st') = i + j + 1" by simp
  show ?case
  proof (cases e)
    case (Some x)
    with p d Cons.prems show ?thesis by auto
  next
    case None
    from d Cons.prems have "persisted_index (disk st') \<le> i + (j + 1)" by auto
    from Cons.IH [OF this] p None d Cons.prems show ?thesis by auto
  qed
qed

lemma set_slice_subset: "set (slice xs a b) \<subseteq> set (drop a xs)"
  unfolding slice_def by (rule set_take_subset)

lemma length_slice_batch: "length (slice xs i (min (i + n) (length xs))) \<le> length xs - i"
  by (simp add: slice_def)

lemma runBatches_fetched_only:
  "fetched_only st (comb_id ` set (drop i combinations))
     (snd (runBatches E combinations start i st))"
proof (induction E combinations start i st rule: runBatches.induct)
  case (1 E combinations start i st)
  show ?case
  proof (cases "i < length combinations")
    case False
    then show ?thesis
      by (simp add: runBatches.simps [of E combinations start i st] fetched_only_refl)
  next
    case True
    let ?batch = "slice combinations i (min (i + batchSize) (length combinations))"
    obtain err st' where p:
      "processBatch E (length combinations) start i ?batch 0 st = (err, st')"
      by (cases "processBatch E (length combinations) start i ?batch 0 st")
    from processBatch_fetched_only [of st ?batch E "length combinations" start i 0] p
    have b: "fetched_only st (comb_id ` set ?batch) st'" by simp
    have sub: "comb_id ` set ?batch \<subseteq> comb_id ` set (drop i combinations)"
      using set_slice_subset [of combinations i] by blast
    show ?thesis
    proof (cases err)
      case (Some e)
      with p True fetched_only_mono [OF b sub] show ?thesis
        by (simp add: runBatches.simps [of E combinations start i st])
    next
      case None
      from "1.IH" [OF True refl p [symmetric] None]
      have r: "fetched_only st' (comb_id ` set (drop (i + batchSize) combinations))
          (snd (runBatches E combinations start (i + batchSize) st'))" .
      have sub2: "comb_id ` set ?batch \<union> comb_id ` set (drop (i + batchSize) combinations)
          \<subseteq> comb_id ` set (drop i combinations)"
        using sub set_drop_subset_set_drop [of i "i + batchSize" combinations] by auto
      from fetched_only_mono [OF fetched_only_trans [OF b r] sub2] p None True show ?thesis
        by (simp add: runBatches.simps [of E combinations start i st])
    qed
  qed
qed


lemma runBatches_persisted_index:
  "persisted_index (disk st) \<le> i \<Longrightarrow>
   persisted_index (disk st) \<le> persisted_index (disk (snd (runBatches E combinations start i st)))
   \<and> persisted_index (disk (snd (runBatches E combinations start i st)))
       \<le> max (persisted_index (disk st)) (length combinations)"
proof (induction E combinations start i st rule: runBatches.induct)
  case (1 E combinations start i st)
  show ?case
  proof (cases "i < length combinations")
    case False
    with "1.prems" show ?thesis
      by (simp add: runBatches.simps [of E combinations start i st])
  next
    case True
    let ?batch = "slice combinations i (min (i + batchSize) (length combinations))"
    obtain e st' where p:
      "processBatch E (length combinations) start i ?batch 0 st = (e, st')"
      by (cases "processBatch E (length combinations) start i ?batch 0 st")
    from "1.prems" have "persisted_index (disk st) \<le> i + 0" by simp
    from processBatch_persisted_index [OF this, of E "length combinations" start ?batch] p
    have lo: "persisted_index (disk st) \<le> persisted_index (disk st')"
      and hi: "persisted_index (disk st') \<le> i + length ?batch"
      by simp_all
    have len: "i + length ?batch \<le> length combinations" "i + length ?batch \<le> i + batchSize"
      using True by (simp_all add: slice_def)
    show ?thesis
    proof (cases e)
      case (Some x)
      with p True lo hi len show ?thesis
        by (simp add: runBatches.simps [of E combinations start i st])
    next
      case None
      from hi len have "persisted_index (disk st') \<le> i + batchSize" by simp
      moreover from hi len have "persisted_index (disk st') \<le> length combinations" by simp
      ultimately show ?thesis
        using "1.IH" [OF True refl p [symmetric] None] p None True lo
        by (auto simp: runBatches.simps [of E combinations start i st])
    qed
  qed
qed

lemma initialize_preserves:
  assumes "initialize E d = Inr d0"
  shows "loadResults d0 = loadResults d" and "persisted_index d0 = persisted_index d"
    and "progressFile d0 \<noteq> None"
  using assms
  by (auto simp: initialize_def saveProgress_def saveResults_def writeFile_def loadResults_def
      persisted_index_def initial_progress_def split: if_splits sum.splits option.splits)

lemma startCaching_fetches:
  assumes "f \<in> set (snd (snd (startCaching E R d)))"
  shows "\<not> store_has (loadResults d) (fst f) \<and> loadResults d (fst f) = None
    \<and> fst f \<in> comb_id ` set (drop (persisted_index d) (generateAllCombinations R))"
proof (cases "initialize E d")
  case (Inl err)
  with assms show ?thesis by (simp add: startCaching_def)
next
  case (Inr d0)
  from initialize_preserves [OF Inr] obtain p where
    p: "progressFile d0 = Some p" and l: "loadResults d0 = loadResults d"
    and i: "persisted_index d0 = persisted_index d"
    by auto
  from p i have ci: "currentIndex p = persisted_index d"
    by (simp add: persisted_index_def)
  let ?start = "if currentIndex p = 0 then Some (clock E) else startTime p"
  let ?st0 = "\<lparr> disk = d0, existingResults = loadResults d0, processedCount = processed p,
      successCount = successes p, errorCount = errors p, fetches = [] \<rparr>"
  show ?thesis
  proof (cases "launches E")
    case False
    with assms Inr p show ?thesis by (simp add: startCaching_def Let_def)
  next
    case True
    from runBatches_fetched_only [of ?st0 "currentIndex p" "generateAllCombinations R" E ?start]
    obtain new where
      n: "fetches (snd (runBatches E (generateAllCombinations R) ?start (currentIndex p) ?st0))
          = new"
      "\<forall>f \<in> set new. fst f \<in> comb_id ` set (drop (currentIndex p) (generateAllCombinations R))
          \<and> \<not> store_has (loadResults d0) (fst f)"
      unfolding fetched_only_def by auto
    from assms Inr p True n(1) have "f \<in> set new"
      by (simp add: startCaching_def Let_def split_beta)
    with n(2) l ci show ?thesis by (auto dest: store_has_own)
  qed
qed











lemma fetched_only_prefix:
  "fetched_only st ids st' \<Longrightarrow> take (length (fetches st)) (fetches st') = fetches st"
  "fetched_only st ids st' \<Longrightarrow> length (fetches st) \<le> length (fetches st')"
  unfolding fetched_only_def by auto


lemma other_id_neq [simp]:
  "comb_id other_combination \<noteq> comb_id test_combination"
  "comb_id test_combination \<noteq> comb_id other_combination"
proof -
  have "otherParams \<noteq> testParams"
    by (simp add: otherParams_def testParams_def)
  moreover have "generateCombinationId otherParams = generateCombinationId testParams
      \<Longrightarrow> otherParams = testParams"
    by (rule generateCombinationId_inj) (simp_all add: otherParams_def testParams_def)
  ultimately have "generateCombinationId otherParams \<noteq> generateCombinationId testParams"
    by blast
  then show "comb_id other_combination \<noteq> comb_id test_combination"
    and "comb_id test_combination \<noteq> comb_id other_combination"
    by (auto simp: other_combination_def test_combination_def)
qed

lemma store_has_empty_other [simp]: "\<not> store_has Map.empty (comb_id other_combination)"
  by (simp add: other_combination_def)

lemma store_has_single [simp]:
  "store_has [k \<mapsto> v] (comb_id other_combination) \<longleftrightarrow> comb_id other_combination = k"
  "store_has [k \<mapsto> v] (comb_id test_combination) \<longleftrightarrow> comb_id test_combination = k"
  by (simp_all add: store_has_upd_iff)












lemma persisted_index_samples [simp]:
  "persisted_index resumed_disk = 1" "persisted_index empty_disk = 0"
  "persisted_index other_cached_disk = 0"
  by (simp_all add: persisted_index_def resumed_disk_def empty_disk_def other_cached_disk_def
      initial_progress_def)

lemma loadResults_samples [simp]:
  "loadResults resumed_disk = Map.empty" "loadResults empty_disk = Map.empty"
  "loadResults other_cached_disk = [comb_id other_combination \<mapsto> test_result]"
  by (simp_all add: loadResults_def resumed_disk_def empty_disk_def other_cached_disk_def)

lemmas run_defs = startCaching_def initialize_def generateAllCombinations_def
  runBatches.simps slice_def batchSize_def processItem_def scrapeWithRetry.simps
  scrape_attempt_def saveProgress_def saveResults_def writeFile_def loadResults_def
  string_truthy_def retryAttempts_def logError_def loadErrors_def Let_def
  initial_progress_def

lemmas sample_defs = working_env_def readonly_progress_env_def single_range_def two_range_def
  all_writable_def
  empty_disk_def resumed_disk_def fresh_state_def cached_state_def sample_page_def
  test_combination_def testParams_def mk_combination_def

lemma run_single_fetches:
  "snd (snd (startCaching working_env single_range empty_disk)) = [(comb_id test_combination, 1)]"
  by (simp add: run_defs sample_defs)

lemma run_resumed_fetches:
  "snd (snd (startCaching working_env two_range resumed_disk)) = [(comb_id test_combination, 1)]"
  by (simp add: run_defs sample_defs)

lemma run_resumed_space:
  "drop (persisted_index resumed_disk) (generateAllCombinations two_range) = [test_combination]"
  by (simp add: persisted_index_def generateAllCombinations_def sample_defs Let_def)

lemma run_unwritable_progress:
  "fst (runBatches readonly_progress_env [test_combination] None 0 fresh_state)
   = Some (IOError ProgressFile)"
  by (simp add: run_defs sample_defs)

lemma run_one_fetches:
  "fetches (snd (runBatches working_env [test_combination] None 0 fresh_state))
   = [(comb_id test_combination, 1)]"
  by (simp add: run_defs sample_defs)

lemma runBatches_new_fetches:
  assumes "f \<in> set (fetches (snd (runBatches E combinations start i st)))"
  shows "f \<in> set (fetches st) \<or> \<not> store_has (existingResults st) (fst f)"
proof -
  from runBatches_fetched_only [of st i combinations E start] obtain new where
    "fetches (snd (runBatches E combinations start i st)) = fetches st @ new"
    "\<forall>f \<in> set new. \<not> store_has (existingResults st) (fst f)"
    unfolding fetched_only_def by blast
  with assms show ?thesis by auto
qed

text \<open>
  C4.  A combination whose id is in the results store (the test \<open>store_has\<close>) is counted
  as processed and as a success, and nothing else changes: no page load is made and no
  file is written.  Hence
  every page load of the batch loop is for an id that the store did not hold when the
  loop started, and every page load of a whole run is for an id that the results file did
  not hold when the run started.
\<close>

theorem cached_combination_is_skipped:
  "(store_has (existingResults st) (comb_id c) \<longrightarrow>
      processItem E tot start idx c st =
        (None, st\<lparr>processedCount := processedCount st + 1,
                    successCount := successCount st + 1\<rparr>))
   \<and> (\<forall>f \<in> set (fetches (snd (runBatches E combinations start i st))).
         f \<in> set (fetches st) \<or> \<not> store_has (existingResults st) (fst f))
   \<and> (\<forall>f \<in> set (snd (snd (startCaching E R d))).
         \<not> store_has (loadResults d) (fst f) \<and> loadResults d (fst f) = None)"
proof (intro conjI impI ballI)
  assume "store_has (existingResults st) (comb_id c)"
  then show "processItem E tot start idx c st =
      (None, st\<lparr>processedCount := processedCount st + 1,
                  successCount := successCount st + 1\<rparr>)"
    by (rule processItem_cached)
next
  fix f assume "f \<in> set (fetches (snd (runBatches E combinations start i st)))"
  then show "f \<in> set (fetches st) \<or> \<not> store_has (existingResults st) (fst f)"
    by (rule runBatches_new_fetches)
next
  fix f assume "f \<in> set (snd (snd (startCaching E R d)))"
  from startCaching_fetches [OF this]
  show "\<not> store_has (loadResults d) (fst f)" and "loadResults d (fst f) = None"
    by simp_all
qed

theorem cached_combination_is_skipped_witness:
  "store_has (existingResults cached_state) (comb_id test_combination)
   \<and> fetches (snd (processItem working_env 1 None 1 test_combination cached_state)) = []
   \<and> processedCount (snd (processItem working_env 1 None 1 test_combination cached_state)) = 1
   \<and> successCount (snd (processItem working_env 1 None 1 test_combination cached_state)) = 1
   \<and> (comb_id test_combination, 1)
        \<in> set (fetches (snd (runBatches working_env [test_combination] None 0 fresh_state)))
   \<and> \<not> store_has (existingResults fresh_state) (comb_id test_combination)
   \<and> (comb_id test_combination, 1)
        \<in> set (snd (snd (startCaching working_env single_range empty_disk)))
   \<and> \<not> store_has (loadResults empty_disk) (comb_id test_combination)"
proof -
  have c: "store_has (existingResults cached_state) (comb_id test_combination)"
    by (simp add: cached_state_def)
  have f1: "(comb_id test_combination, 1)
      \<in> set (fetches (snd (runBatches working_env [test_combination] None 0 fresh_state)))"
    by (simp add: run_one_fetches)
  have f2: "(comb_id test_combination, 1)
      \<in> set (snd (snd (startCaching working_env single_range empty_disk)))"
    by (simp add: run_single_fetches)
  note t = cached_combination_is_skipped
    [where st = cached_state and c = test_combination and E = working_env and tot = 1
       and start = None and idx = 1 and combinations = "[test_combination]" and i = 0
       and R = single_range and d = empty_disk]
  note t' = cached_combination_is_skipped
    [where st = fresh_state and c = test_combination and E = working_env and tot = 1
       and start = None and idx = 1 and combinations = "[test_combination]" and i = 0
       and R = single_range and d = empty_disk]
  from t c have
    "processItem working_env 1 None 1 test_combination cached_state =
       (None, cached_state\<lparr>processedCount := processedCount cached_state + 1,
                             successCount := successCount cached_state + 1\<rparr>)"
    by simp
  moreover from t' f1 have "\<not> store_has (existingResults fresh_state) (comb_id test_combination)"
    by (auto simp: fresh_state_def)
  moreover from t f2 have "\<not> store_has (loadResults empty_disk) (comb_id test_combination)"
    by auto
  ultimately show ?thesis
    using c f1 f2 by (simp add: cached_state_def fresh_state_def)
qed








lemma initialize_empty_disk: "initialize readonly_progress_env empty_disk = Inr empty_disk"
  by (simp add: initialize_def empty_disk_def)

lemma run_unwritable_progress_start:
  "fst (startCaching readonly_progress_env single_range empty_disk) = Some (IOError ProgressFile)"
  by (simp add: run_defs sample_defs)




end
